theory Spec2Isabelle
  imports Main
begin

section \<open>JavaScript values\<close>

text \<open>
  The values \<open>$try\<close> (src/try.ts) can receive and return. Only what the code inspects
  is represented: truthiness, the \<open>typeof\<close> tag, own properties, and whether a value is
  a native promise. Numbers are integers plus \<open>NaN\<close> (every other number is truthy like a
  non-zero integer); an object carries a flag telling whether it was frozen, and its own
  properties in order. A function value is a user function (numbered; its behaviour is
  given by the environment), one of the two arrow functions of the source, or a builtin
  promise method; it may carry own properties as any JavaScript function may.

  \<open>Promise p ps\<close> is an instance of the built-in \<open>Promise\<close> constructor itself: the
  promise numbered \<open>p\<close> in the promise store, with the own properties \<open>ps\<close>. An own
  property hides the prototype's method of the same name, so a promise whose \<open>then\<close>
  was replaced is a value of its own; an instance of a subclass that overrides \<open>then\<close>
  behaves, for this code, like an instance with that own \<open>then\<close>. The built-in
  prototypes are the unmodified ones. Only properties with string keys are represented.
\<close>

type_synonym fid = nat
type_synonym pid = nat

text \<open>
  \<open>WrapResult\<close> is the arrow function \<open>(value) => ({ result: value })\<close> of lines 29 and
  45, \<open>WrapError\<close> is \<open>(error) => ({ error })\<close> of lines 30 and 46.
\<close>

datatype closure = WrapResult | WrapError

datatype builtin = PromiseThen | PromiseCatch

datatype fkind = User fid | Closure closure | Builtin builtin

datatype jsval =
    Undefined
  | Null
  | Bool bool
  | Num int
  | NaN
  | Str string
  | Obj bool "(string \<times> jsval) list"
  | Fn fkind "(string \<times> jsval) list"
  | Promise pid "(string \<times> jsval) list"

text \<open>A completion: the code returned a value or raised one.\<close>

datatype outcome = Return jsval | Throw jsval

fun truthy :: "jsval \<Rightarrow> bool" where
  "truthy Undefined = False"
| "truthy Null = False"
| "truthy (Bool b) = b"
| "truthy (Num n) = (n \<noteq> 0)"
| "truthy NaN = False"
| "truthy (Str s) = (s \<noteq> [])"
| "truthy (Obj fr ps) = True"
| "truthy (Fn k ps) = True"
| "truthy (Promise p ps) = True"

fun typeof :: "jsval \<Rightarrow> string" where
  "typeof Undefined = ''undefined''"
| "typeof Null = ''object''"
| "typeof (Bool b) = ''boolean''"
| "typeof (Num n) = ''number''"
| "typeof NaN = ''number''"
| "typeof (Str s) = ''string''"
| "typeof (Obj fr ps) = ''object''"
| "typeof (Fn k ps) = ''function''"
| "typeof (Promise p ps) = ''object''"

text \<open>
  Reading a member of a value that is neither \<open>undefined\<close> nor \<open>null\<close> (reading one of
  those raises; the callers below test for it first). Objects and functions answer with
  their own properties; a native promise with its own property of that name and, when
  it has none, with the prototype method (the two the code calls); primitives with
  \<open>undefined\<close>. Inherited members that the code never reads are not represented, and
  neither are getters: reading a member does not raise.
\<close>

fun get_member :: "jsval \<Rightarrow> string \<Rightarrow> jsval" where
  "get_member (Obj fr ps) n = (case map_of ps n of Some v \<Rightarrow> v | None \<Rightarrow> Undefined)"
| "get_member (Fn k ps) n = (case map_of ps n of Some v \<Rightarrow> v | None \<Rightarrow> Undefined)"
| "get_member (Promise p ps) n =
     (case map_of ps n of
        Some v \<Rightarrow> v
      | None \<Rightarrow>
          (if n = ''then'' then Fn (Builtin PromiseThen) []
           else if n = ''catch'' then Fn (Builtin PromiseCatch) []
           else Undefined))"
| "get_member x n = Undefined"

text \<open>Whether an object or function has the own property \<open>n\<close> (the \<open>in\<close> test on a literal).\<close>

fun has_own :: "jsval \<Rightarrow> string \<Rightarrow> bool" where
  "has_own (Obj fr ps) n = (n \<in> fst ` set ps)"
| "has_own (Fn k ps) n = (n \<in> fst ` set ps)"
| "has_own (Promise p ps) n = (n \<in> fst ` set ps)"
| "has_own x n = False"

text \<open>
  A plain promise: the promise \<open>p\<close> with neither an own \<open>then\<close> nor an own
  \<open>constructor\<close>, so that \<open>x.then\<close> is the built-in method and derives an
  instance of the built-in \<open>Promise\<close>.
\<close>

fun plain_promise :: "jsval \<Rightarrow> pid \<Rightarrow> bool" where
  "plain_promise (Promise q ps) p =
     (q = p \<and> map_of ps ''then'' = None \<and> map_of ps ''constructor'' = None)"
| "plain_promise x p = False"

text \<open>The test of lines 27 and 43: \<open>x && typeof x.then === 'function'\<close>.\<close>

definition awaitable_shaped :: "jsval \<Rightarrow> bool" where
  "awaitable_shaped x = (truthy x \<and> typeof (get_member x ''then'') = ''function'')"

text \<open>
  A TypeError object. The message of line 34 is the source's; the messages of the
  engine's own TypeErrors differ between engines and are indicative only.
\<close>

definition type_error :: "string \<Rightarrow> jsval" where
  "type_error msg = Obj False [(''name'', Str ''TypeError''), (''message'', Str msg)]"

text \<open>The RangeError of a call stack that overflows.\<close>

definition range_error :: jsval where
  "range_error =
     Obj False [(''name'', Str ''RangeError''), (''message'', Str ''call stack exceeded'')]"

text \<open>The object literals \<open>{ result: value }\<close> and \<open>{ error }\<close>: fresh, not frozen.\<close>

definition mk_result :: "jsval \<Rightarrow> jsval" where
  "mk_result v = Obj False [(''result'', v)]"

definition mk_error :: "jsval \<Rightarrow> jsval" where
  "mk_error e = Obj False [(''error'', e)]"

fun first_arg :: "jsval list \<Rightarrow> jsval" where
  "first_arg [] = Undefined"
| "first_arg (a # as) = a"

fun second_arg :: "jsval list \<Rightarrow> jsval" where
  "second_arg (a # b # bs) = b"
| "second_arg as = Undefined"

fun apply_closure :: "closure \<Rightarrow> jsval list \<Rightarrow> jsval" where
  "apply_closure WrapResult args = mk_result (first_arg args)"
| "apply_closure WrapError args = mk_error (first_arg args)"

text \<open>
  A handler passed to the built-in \<open>then\<close>: one of the two arrow functions, or none
  (\<open>undefined\<close> is no handler; no other function is ever passed through this model).
\<close>

fun as_closure :: "jsval \<Rightarrow> closure option" where
  "as_closure (Fn (Closure c) ps) = Some c"
| "as_closure x = None"

section \<open>The world: user state, call log and promises\<close>

text \<open>
  A promise is pending, locked to follow a thenable it was resolved with (whose fate is
  outside this model), or settled. A reaction is what \<open>then\<close> registers: the handlers
  and the derived promise they settle. Only the reactions \<open>$try\<close> registers are kept,
  so a handler is one of its two arrow functions or absent; reactions of other code on
  the same promises do not change the promises \<open>$try\<close> derives. A job is a reaction
  whose source has settled, waiting in the microtask queue.
\<close>

datatype settlement = Fulfil jsval | Reject jsval

datatype pstate = Pending | Following jsval | Settled settlement

record reaction =
  src :: pid
  on_fulfilled :: "closure option"
  on_rejected :: "closure option"
  target :: pid

text \<open>
  \<open>ustate\<close> is whatever state user code keeps. \<open>calls\<close> logs every function invocation
  made through \<open>call_function\<close>, oldest first, with its arguments: the calls the code
  of \<open>$try\<close> makes, but for its calls of a built-in method on a promise object, which
  the engine runs (\<open>call_method\<close>). \<open>inner_calls\<close> logs the calls of \<open>this.then\<close>
  that the built-in \<open>catch\<close> makes itself. Between them the two logs hold every run
  of a user function.
\<close>

record 'u world =
  ustate :: 'u
  calls :: "(fkind \<times> jsval list) list"
  inner_calls :: "(fkind \<times> jsval list) list"
  pstates :: "pstate list"
  reactions :: "reaction list"
  jobs :: "(reaction \<times> settlement) list"

text \<open>
  The behaviour of user function \<open>i\<close>: from the receiver, the arguments and the user
  state to a completion and the new user state. User code does not reach into the
  promise store; a promise it hands out is one already allocated there, and its
  settlement is an event of its own (below). Every user function returns or raises: a
  call that never comes back, with which \<open>$try\<close> would not come back either, is not
  represented.
\<close>

type_synonym 'u env = "fid \<Rightarrow> jsval \<Rightarrow> jsval list \<Rightarrow> 'u \<Rightarrow> outcome \<times> 'u"

definition pstate_of :: "'u world \<Rightarrow> pid \<Rightarrow> pstate" where
  "pstate_of w p = (if p < length (pstates w) then pstates w ! p else Pending)"

text \<open>
  \<open>p.then(onF, onR)\<close> on a native promise: a new pending promise, and the reaction
  queued as a job when \<open>p\<close> has settled already, registered on \<open>p\<close> otherwise.
\<close>

definition promise_then ::
  "pid \<Rightarrow> closure option \<Rightarrow> closure option \<Rightarrow> 'u world \<Rightarrow> pid \<times> 'u world" where
  "promise_then p onF onR w =
     (let q = length (pstates w);
          r = \<lparr>src = p, on_fulfilled = onF, on_rejected = onR, target = q\<rparr>;
          w1 = w\<lparr>pstates := pstates w @ [Pending]\<rparr>
      in case pstate_of w p of
           Settled s \<Rightarrow> (q, w1\<lparr>jobs := jobs w @ [(r, s)]\<rparr>)
         | Pending \<Rightarrow> (q, w1\<lparr>reactions := reactions w @ [r]\<rparr>)
         | Following x \<Rightarrow> (q, w1\<lparr>reactions := reactions w @ [r]\<rparr>))"

text \<open>
  The built-in \<open>then\<close> looks for the constructor of the promise it derives in the
  receiver's \<open>constructor\<close> property (SpeciesConstructor). Without an own property the
  receiver inherits the built-in \<open>Promise\<close>; \<open>undefined\<close> selects it too; any other
  value that is not an object raises a TypeError; an object is asked for its species,
  a symbol-keyed property that no value here has, which selects the built-in
  \<open>Promise\<close> again. \<open>species_default c\<close> tells whether the own \<open>constructor\<close>
  value \<open>c\<close> lets \<open>then\<close> go on.
\<close>

fun species_default :: "jsval \<Rightarrow> bool" where
  "species_default Null = False"
| "species_default (Bool b) = False"
| "species_default (Num n) = False"
| "species_default NaN = False"
| "species_default (Str s) = False"
| "species_default x = True"

text \<open>
  The built-in \<open>then\<close> applied to the receiver \<open>this\<close>: it registers the handlers on a
  promise and returns the derived promise, a new instance of the built-in \<open>Promise\<close>;
  any other receiver raises a TypeError.
\<close>

definition native_then ::
  "jsval \<Rightarrow> closure option \<Rightarrow> closure option \<Rightarrow> 'u world \<Rightarrow> outcome \<times> 'u world" where
  "native_then this onF onR w =
     (case this of
        Promise p ps \<Rightarrow>
          (if (case map_of ps ''constructor'' of None \<Rightarrow> True | Some c \<Rightarrow> species_default c)
           then (let (q, w1) = promise_then p onF onR w in (Return (Promise q []), w1))
           else (Throw (type_error ''constructor is not an object''), w))
      | _ \<Rightarrow> (Throw (type_error ''incompatible receiver''), w))"

text \<open>
  Running a user function or one of the two arrow functions, without logging; what is
  not a function raises a TypeError.
\<close>

definition run_plain ::
  "'u env \<Rightarrow> jsval \<Rightarrow> jsval \<Rightarrow> jsval list \<Rightarrow> 'u world \<Rightarrow> outcome \<times> 'u world" where
  "run_plain env f this args w =
     (case f of
        Fn (User i) ps \<Rightarrow> (let (r, u) = env i this args (ustate w) in (r, w\<lparr>ustate := u\<rparr>))
      | Fn (Closure c) ps \<Rightarrow> (Return (apply_closure c args), w)
      | _ \<Rightarrow> (Throw (type_error ''not a function''), w))"

text \<open>
  The two built-in methods on any receiver. \<open>Promise.prototype.catch\<close> is generic: it
  calls \<open>this.then(undefined, onRejected)\<close>, whatever \<open>this.then\<close> is; where that is
  \<open>catch\<close> itself the calls never end and the stack overflows, and where it is not a
  function the call raises a TypeError.
\<close>

definition run_builtin ::
  "'u env \<Rightarrow> builtin \<Rightarrow> jsval \<Rightarrow> jsval list \<Rightarrow> 'u world \<Rightarrow> outcome \<times> 'u world" where
  "run_builtin env b this args w =
     (case b of
        PromiseThen \<Rightarrow>
          native_then this (as_closure (first_arg args)) (as_closure (second_arg args)) w
      | PromiseCatch \<Rightarrow>
          (case get_member this ''then'' of
             Fn (Builtin PromiseThen) ps \<Rightarrow> native_then this None (as_closure (first_arg args)) w
           | Fn (Builtin PromiseCatch) ps \<Rightarrow> (Throw range_error, w)
           | Fn k ps \<Rightarrow>
               run_plain env (Fn k ps) this [Undefined, first_arg args]
                 (w\<lparr>inner_calls := inner_calls w @ [(k, [Undefined, first_arg args])]\<rparr>)
           | g \<Rightarrow> (Throw (type_error ''not a function''), w)))"

text \<open>
  Calling a function value \<open>f\<close> with receiver \<open>this\<close>: the call is logged, then the
  function runs. A value that is not a function raises a TypeError.
\<close>

definition call_function ::
  "'u env \<Rightarrow> jsval \<Rightarrow> jsval \<Rightarrow> jsval list \<Rightarrow> 'u world \<Rightarrow> outcome \<times> 'u world" where
  "call_function env f this args w =
     (case f of
        Fn k ps \<Rightarrow>
          (let w1 = w\<lparr>calls := calls w @ [(k, args)]\<rparr> in
           case k of
             Builtin b \<Rightarrow> run_builtin env b this args w1
           | _ \<Rightarrow> run_plain env f this args w1)
      | _ \<Rightarrow> (Throw (type_error ''not a function''), w))"

text \<open>
  The method call \<open>recv.name(cb)\<close> where \<open>cb\<close> is one of the two arrow functions: the
  only method calls in the source (\<open>name\<close> is \<open>then\<close> or \<open>catch\<close>). Reading the member
  of \<open>undefined\<close> or \<open>null\<close> raises. A built-in method found on a promise object is run
  by the engine; any other member is called as a function value.
\<close>

definition call_method ::
  "'u env \<Rightarrow> jsval \<Rightarrow> string \<Rightarrow> closure \<Rightarrow> 'u world \<Rightarrow> outcome \<times> 'u world" where
  "call_method env recv name cb w =
     (case recv of
        Undefined \<Rightarrow> (Throw (type_error ''cannot read properties of undefined''), w)
      | Null \<Rightarrow> (Throw (type_error ''cannot read properties of null''), w)
      | Promise p ps \<Rightarrow>
          (case get_member recv name of
             Fn (Builtin b) qs \<Rightarrow> run_builtin env b recv [Fn (Closure cb) []] w
           | f \<Rightarrow> call_function env f recv [Fn (Closure cb) []] w)
      | _ \<Rightarrow> call_function env (get_member recv name) recv [Fn (Closure cb) []] w)"

section \<open>The adapter\<close>

text \<open>
  The expression \<open>x.then((value) => ({ result: value })).catch((error) => ({ error }))\<close>
  of lines 28-30 and 44-46. A raise in either call ends the expression.
\<close>

definition then_catch :: "'u env \<Rightarrow> jsval \<Rightarrow> 'u world \<Rightarrow> outcome \<times> 'u world" where
  "then_catch env x w =
     (case call_method env x ''then'' WrapResult w of
        (Throw e, w1) \<Rightarrow> (Throw e, w1)
      | (Return m, w1) \<Rightarrow> call_method env m ''catch'' WrapError w1)"

text \<open>
  \<open>$try\<close>, lines 25-55. The first test sends every awaitable-shaped argument to
  \<open>then_catch\<close> outside the \<open>try\<close> block; the second raises for what is not a function;
  the rest is the \<open>try\<close> block, whose \<open>catch\<close> turns every raise inside it (of \<open>fn()\<close>
  and of the \<open>then\<close>/\<open>catch\<close> calls on what it returned) into \<open>{ error }\<close>.
\<close>

definition dollar_try :: "'u env \<Rightarrow> jsval \<Rightarrow> 'u world \<Rightarrow> outcome \<times> 'u world" where
  "dollar_try env arg w =
     (if awaitable_shaped arg then then_catch env arg w
      else if typeof arg \<noteq> ''function'' then
        (Throw (type_error ''$try expects a function or a Promise''), w)
      else
        (case call_function env arg Undefined [] w of
           (Throw error, w1) \<Rightarrow> (Return (mk_error error), w1)
         | (Return value, w1) \<Rightarrow>
             (if awaitable_shaped value then
                (case then_catch env value w1 of
                   (Throw error, w2) \<Rightarrow> (Return (mk_error error), w2)
                 | (Return derived, w2) \<Rightarrow> (Return derived, w2))
              else (Return (mk_result value), w1))))"

section \<open>Settling promises and running jobs\<close>

text \<open>
  Settling a pending promise queues its reactions as jobs, in order; a promise that is
  no longer pending is left alone.
\<close>

definition can_settle :: "'u world \<Rightarrow> pid \<Rightarrow> bool" where
  "can_settle w p = (pstate_of w p = Pending \<and> p < length (pstates w))"

definition settle_promise :: "pid \<Rightarrow> settlement \<Rightarrow> 'u world \<Rightarrow> 'u world" where
  "settle_promise p s w =
     (if can_settle w p then
        w\<lparr>pstates := (pstates w)[p := Settled s],
          reactions := filter (\<lambda>r. src r \<noteq> p) (reactions w),
          jobs := jobs w @ map (\<lambda>r. (r, s)) (filter (\<lambda>r. src r = p) (reactions w))\<rparr>
      else w)"

text \<open>
  Resolving a promise with a value: a thenable locks the promise to follow it, any
  other value fulfils it.
\<close>

definition resolve_promise :: "pid \<Rightarrow> jsval \<Rightarrow> 'u world \<Rightarrow> 'u world" where
  "resolve_promise p x w =
     (if awaitable_shaped x then
        (if can_settle w p then w\<lparr>pstates := (pstates w)[p := Following x]\<rparr> else w)
      else settle_promise p (Fulfil x) w)"

text \<open>
  One microtask: the first job leaves the queue; its handler, when there is one for the
  way the source settled, is applied and the derived promise resolved with what it
  returns (the two arrow functions never raise); without a handler the settlement
  passes through.
\<close>

definition run_job :: "'u world \<Rightarrow> 'u world" where
  "run_job w =
     (case jobs w of
        [] \<Rightarrow> w
      | (r, s) # js \<Rightarrow>
          (let w1 = w\<lparr>jobs := js\<rparr> in
           case s of
             Fulfil v \<Rightarrow>
               (case on_fulfilled r of
                  None \<Rightarrow> resolve_promise (target r) v w1
                | Some c \<Rightarrow> resolve_promise (target r) (apply_closure c [v]) w1)
           | Reject e \<Rightarrow>
               (case on_rejected r of
                  None \<Rightarrow> settle_promise (target r) (Reject e) w1
                | Some c \<Rightarrow> resolve_promise (target r) (apply_closure c [e]) w1)))"

text \<open>Running the microtask queue until it is empty.\<close>

function drain :: "'u world \<Rightarrow> 'u world" where
  "drain w = (if jobs w = [] then w else drain (run_job w))"
  by pat_completeness auto
termination
proof (relation "measure (\<lambda>w. length (jobs w) + length (reactions w))")
  show "wf (measure (\<lambda>w::'u world. length (jobs w) + length (reactions w)))"
    by simp
next
  fix w :: "'u world"
  assume ne: "jobs w \<noteq> []"
  have settle: "length (jobs (settle_promise p s v)) + length (reactions (settle_promise p s v))
      = length (jobs v) + length (reactions v)" for p s and v :: "'u world"
    using sum_length_filter_compl [of "\<lambda>r. src r = p" "reactions v"]
    by (simp add: settle_promise_def)
  have resolve: "length (jobs (resolve_promise p x v)) + length (reactions (resolve_promise p x v))
      = length (jobs v) + length (reactions v)" for p x and v :: "'u world"
    using settle [of p "Fulfil x" v] by (simp add: resolve_promise_def)
  obtain r s js where j: "jobs w = (r, s) # js"
    using ne by (cases "jobs w") auto
  have "length (jobs (run_job w)) + length (reactions (run_job w))
      < length (jobs w) + length (reactions w)"
    using j settle resolve
    by (simp add: run_job_def Let_def split: settlement.split option.split)
  then show "(run_job w, w) \<in> measure (\<lambda>w. length (jobs w) + length (reactions w))"
    by simp
qed

declare drain.simps [simp del]

text \<open>
  What can happen after \<open>$try\<close> has returned: the outside world settles a pending
  promise it owns (one no reaction or job is about to settle), a microtask runs, or
  \<open>$try\<close> is called again.
\<close>

datatype event = Settle pid settlement | RunJob | Call jsval

text \<open>The reactions and the queued jobs that will settle promise \<open>t\<close>.\<close>

definition reactions_into :: "'u world \<Rightarrow> pid \<Rightarrow> reaction list" where
  "reactions_into w t = filter (\<lambda>r. target r = t) (reactions w)"

definition jobs_into :: "'u world \<Rightarrow> pid \<Rightarrow> (reaction \<times> settlement) list" where
  "jobs_into w t = filter (\<lambda>j. target (fst j) = t) (jobs w)"

definition targeted :: "'u world \<Rightarrow> pid \<Rightarrow> bool" where
  "targeted w p = (reactions_into w p \<noteq> [] \<or> jobs_into w p \<noteq> [])"

fun apply_event :: "'u env \<Rightarrow> 'u world \<Rightarrow> event \<Rightarrow> 'u world" where
  "apply_event env w (Settle p s) = (if targeted w p then w else settle_promise p s w)"
| "apply_event env w RunJob = run_job w"
| "apply_event env w (Call arg) = snd (dollar_try env arg w)"

definition run_events :: "'u env \<Rightarrow> event list \<Rightarrow> 'u world \<Rightarrow> 'u world" where
  "run_events env evs w = foldl (apply_event env) w evs"

text \<open>
  Every promise a reaction or a job is to settle has been allocated. This holds in the
  world with no promises and is kept by every event (\<open>wf_run_events\<close> below).
\<close>

definition wf_world :: "'u world \<Rightarrow> bool" where
  "wf_world w =
     ((\<forall>r \<in> set (reactions w). target r < length (pstates w)) \<and>
      (\<forall>j \<in> set (jobs w). target (fst j) < length (pstates w)))"

section \<open>Writing a property\<close>

text \<open>
  The assignment \<open>x.n = v\<close> in strict mode (an ES module is strict): a frozen object
  and a primitive raise a TypeError, any other object, function or promise takes the
  property. The result is the object as it is after the assignment.
\<close>

fun put_prop :: "string \<Rightarrow> jsval \<Rightarrow> (string \<times> jsval) list \<Rightarrow> (string \<times> jsval) list" where
  "put_prop n x [] = [(n, x)]"
| "put_prop n x ((k, v) # ps) = (if k = n then (n, x) # ps else (k, v) # put_prop n x ps)"

fun set_member :: "jsval \<Rightarrow> string \<Rightarrow> jsval \<Rightarrow> outcome" where
  "set_member (Obj fr ps) n x =
     (if fr then Throw (type_error ''cannot assign to read only property'')
      else Return (Obj fr (put_prop n x ps)))"
| "set_member (Fn k ps) n x = Return (Fn k (put_prop n x ps))"
| "set_member (Promise p ps) n x = Return (Promise p (put_prop n x ps))"
| "set_member y n x = Throw (type_error ''cannot create property'')"

section \<open>The Result types\<close>

text \<open>
  The types of the package's type module, as far as \<open>DeepReadonly\<close> looks at them. A
  property has a name, a \<open>readonly\<close> flag, an optional flag and a type; \<open>TArray\<close>
  carries its \<open>readonly\<close> flag; \<open>TFunction\<close> stands for a function type, one that
  extends \<open>(...args: unknown[]) => unknown\<close>.
\<close>

datatype ts_type =
    TNever
  | TPrim string
  | TFunction
  | TArray bool ts_type
  | TObject "ts_prop list"
  | TUnion "ts_type list"
and ts_prop = Prop string bool bool ts_type

text \<open>
  \<open>DeepReadonly<T>\<close>: a function type is left as it is; an object type is mapped
  property by property with the \<open>readonly\<close> modifier (a mapped type over \<open>keyof T\<close> keeps
  the optional flags and maps an array type to a readonly array); anything else is left
  as it is. The conditional type distributes over a union, and is \<open>never\<close> on \<open>never\<close>.
\<close>

fun DeepReadonly :: "ts_type \<Rightarrow> ts_type"
  and deep_prop :: "ts_prop \<Rightarrow> ts_prop" where
  "DeepReadonly TFunction = TFunction"
| "DeepReadonly (TObject ps) = TObject (map deep_prop ps)"
| "DeepReadonly (TArray ro t) = TArray True (DeepReadonly t)"
| "DeepReadonly (TUnion ts) = TUnion (map DeepReadonly ts)"
| "DeepReadonly TNever = TNever"
| "DeepReadonly (TPrim s) = TPrim s"
| "deep_prop (Prop n ro opt t) = Prop n True opt (DeepReadonly t)"

text \<open>The interfaces of lines 7-15, and the union of lines 17-19.\<close>

definition ResultOrErrorResult :: "ts_type \<Rightarrow> ts_type" where
  "ResultOrErrorResult T =
     TObject [Prop ''result'' False False T, Prop ''error'' False True TNever]"

text \<open>
  \<open>Error & { data?: E }\<close>: the properties of the standard \<open>Error\<close> interface and the
  optional \<open>data\<close>.
\<close>

definition ErrorWithData :: "ts_type \<Rightarrow> ts_type" where
  "ErrorWithData E =
     TObject [Prop ''name'' False False (TPrim ''string''),
              Prop ''message'' False False (TPrim ''string''),
              Prop ''stack'' False True (TPrim ''string''),
              Prop ''data'' False True E]"

definition ResultOrErrorError :: "ts_type \<Rightarrow> ts_type" where
  "ResultOrErrorError E =
     TObject [Prop ''result'' False True TNever, Prop ''error'' False False (ErrorWithData E)]"

definition ResultOrError :: "ts_type \<Rightarrow> ts_type \<Rightarrow> ts_type" where
  "ResultOrError T E = DeepReadonly (TUnion [ResultOrErrorResult T, ResultOrErrorError E])"

text \<open>
  What an object type says about the slot \<open>n\<close>: it requires the slot (the property is
  declared and not optional), or it forbids a value in it (every declaration of the
  property is optional and of type \<open>never\<close>, the type without values).
\<close>

fun prop_required :: "string \<Rightarrow> ts_prop \<Rightarrow> bool" where
  "prop_required n (Prop m ro opt t) = (m = n \<and> \<not> opt)"

fun prop_forbidden :: "string \<Rightarrow> ts_prop \<Rightarrow> bool" where
  "prop_forbidden n (Prop m ro opt t) = (m = n \<and> opt \<and> t = TNever)"

fun requires_slot :: "ts_type \<Rightarrow> string \<Rightarrow> bool" where
  "requires_slot (TObject ps) n = list_ex (prop_required n) ps"
| "requires_slot t n = False"

fun forbids_slot :: "ts_type \<Rightarrow> string \<Rightarrow> bool" where
  "forbids_slot (TObject ps) n =
     (list_ex (prop_forbidden n) ps \<and> \<not> list_ex (prop_required n) ps)"
| "forbids_slot t n = False"

text \<open>
  Every property and array reachable in a type is declared \<open>readonly\<close>; the inside of
  a function type is not looked at.
\<close>

fun all_readonly :: "ts_type \<Rightarrow> bool"
  and prop_readonly :: "ts_prop \<Rightarrow> bool" where
  "all_readonly TFunction = True"
| "all_readonly (TObject ps) = list_all prop_readonly ps"
| "all_readonly (TArray ro t) = (ro \<and> all_readonly t)"
| "all_readonly (TUnion ts) = list_all all_readonly ts"
| "all_readonly TNever = True"
| "all_readonly (TPrim s) = True"
| "prop_readonly (Prop n ro opt t) = (ro \<and> all_readonly t)"

section \<open>Notions the properties are stated with\<close>

text \<open>
  \<open>$try(arg)\<close> awaits the promise \<open>p\<close>: \<open>arg\<close> is the plain promise \<open>p\<close>, or \<open>arg\<close>
  is a function that the code invokes (it is not awaitable-shaped itself) and that
  returns the plain promise \<open>p\<close>.
\<close>

definition awaits :: "'u env \<Rightarrow> jsval \<Rightarrow> 'u world \<Rightarrow> pid \<Rightarrow> bool" where
  "awaits env arg w p =
     (plain_promise arg p \<or>
      (typeof arg = ''function'' \<and> \<not> awaitable_shaped arg \<and>
       (case fst (call_function env arg Undefined [] w) of
          Return x \<Rightarrow> plain_promise x p
        | Throw e \<Rightarrow> False)))"

text \<open>Exactly one of the two slots is present.\<close>

definition exactly_one :: "jsval \<Rightarrow> bool" where
  "exactly_one r = (has_own r ''result'' \<noteq> has_own r ''error'')"

text \<open>A value carries a message: its \<open>message\<close> member is a string.\<close>

definition has_message :: "jsval \<Rightarrow> bool" where
  "has_message x = (typeof (get_member x ''message'') = ''string'')"

text \<open>
  What a promise resolved with \<open>x\<close> becomes, and what the job of reaction \<open>r\<close> makes of
  the derived promise once the source has settled as \<open>s\<close> (\<open>run_job\<close>, read as a
  function of the reaction).
\<close>

definition resolved :: "jsval \<Rightarrow> pstate" where
  "resolved x = (if awaitable_shaped x then Following x else Settled (Fulfil x))"

fun outcome_of :: "reaction \<Rightarrow> settlement \<Rightarrow> pstate" where
  "outcome_of r (Fulfil v) =
     (case on_fulfilled r of None \<Rightarrow> resolved v | Some c \<Rightarrow> resolved (apply_closure c [v]))"
| "outcome_of r (Reject e) =
     (case on_rejected r of
        None \<Rightarrow> Settled (Reject e)
      | Some c \<Rightarrow> resolved (apply_closure c [e]))"

text \<open>
  The invariant of a registered reaction \<open>r\<close>. While its source is not settled, the
  derived promise is pending and \<open>r\<close> is the one reaction that will settle it. Once the
  source has settled as \<open>s\<close>, either the job \<open>(r, s)\<close> is the one thing queued for the
  derived promise, still pending, or the job has run and the derived promise is what
  \<open>outcome_of r s\<close> says.
\<close>

definition link_inv :: "'u world \<Rightarrow> reaction \<Rightarrow> bool" where
  "link_inv w r =
     (src r < target r \<and> target r < length (pstates w) \<and>
      (case pstate_of w (src r) of
         Settled s \<Rightarrow>
           (pstate_of w (target r) = Pending \<and> reactions_into w (target r) = [] \<and>
            jobs_into w (target r) = [(r, s)]) \<or>
           (pstate_of w (target r) = outcome_of r s \<and> reactions_into w (target r) = [] \<and>
            jobs_into w (target r) = [])
       | _ \<Rightarrow>
           pstate_of w (target r) = Pending \<and> reactions_into w (target r) = [r] \<and>
           jobs_into w (target r) = []))"

text \<open>
  \<open>w'\<close> keeps what \<open>w\<close> says about every promise allocated in \<open>w\<close>: its state, and
  what is registered or queued to settle it.
\<close>

definition frame :: "'u world \<Rightarrow> 'u world \<Rightarrow> bool" where
  "frame w w' =
     (length (pstates w) \<le> length (pstates w') \<and>
      (\<forall>t < length (pstates w).
         pstate_of w' t = pstate_of w t \<and> reactions_into w' t = reactions_into w t \<and>
         jobs_into w' t = jobs_into w t))"

section \<open>Example inputs\<close>

text \<open>
  User function 0 raises the number 0, function 1 returns 42, function 2 returns the
  promise 0, every other one returns \<open>undefined\<close>. The example world holds one
  pending promise and nothing else.
\<close>

definition ex_env :: "unit env" where
  "ex_env i this args u =
     (if i = 0 then (Throw (Num 0), u)
      else if i = 1 then (Return (Num 42), u)
      else if i = 2 then (Return (Promise 0 []), u)
      else (Return Undefined, u))"

definition ex_world :: "unit world" where
  "ex_world =
     \<lparr>ustate = (), calls = [], inner_calls = [], pstates = [Pending], reactions = [], jobs = []\<rparr>"

text \<open>
  A second set of user functions, for thenables: function 0 returns an object whose
  \<open>then\<close> member is function 0 itself; function 1 returns an object whose \<open>catch\<close>
  member is function 2, which returns an object with both slots; function 3 returns
  the promise 0 with its \<open>then\<close> replaced by function 4, which raises the number 0;
  function 5 returns an object whose \<open>catch\<close> member is function 6, which returns
  the number 7; function 7 returns an object whose \<open>then\<close> member is function 1,
  function 8 one whose \<open>then\<close> member is function 3; every other one returns
  \<open>undefined\<close>.
\<close>

definition ex_env2 :: "unit env" where
  "ex_env2 i this args u =
     (if i = 0 then (Return (Obj False [(''then'', Fn (User 0) [])]), u)
      else if i = 1 then (Return (Obj False [(''catch'', Fn (User 2) [])]), u)
      else if i = 2 then (Return (Obj False [(''result'', Num 1), (''error'', Num 2)]), u)
      else if i = 3 then (Return (Promise 0 [(''then'', Fn (User 4) [])]), u)
      else if i = 4 then (Throw (Num 0), u)
      else if i = 5 then (Return (Obj False [(''catch'', Fn (User 6) [])]), u)
      else if i = 6 then (Return (Num 7), u)
      else if i = 7 then (Return (Obj False [(''then'', Fn (User 1) [])]), u)
      else if i = 8 then (Return (Obj False [(''then'', Fn (User 3) [])]), u)
      else (Return Undefined, u))"

section \<open>How settling and running jobs change a world\<close>

lemma pstate_of_settle:
  "pstate_of (settle_promise x s w) y =
     (if y = x \<and> can_settle w x then Settled s else pstate_of w y)"
  by (auto simp: settle_promise_def pstate_of_def can_settle_def)

lemma length_settle [simp]: "length (pstates (settle_promise x s w)) = length (pstates w)"
  by (simp add: settle_promise_def)

lemma reactions_into_settle:
  "reactions_into (settle_promise x s w) t =
     (if can_settle w x then filter (\<lambda>r. src r \<noteq> x) (reactions_into w t) else reactions_into w t)"
  by (auto simp: settle_promise_def reactions_into_def can_settle_def conj_commute)

lemma jobs_into_settle:
  "jobs_into (settle_promise x s w) t =
     (if can_settle w x then jobs_into w t @ map (\<lambda>r. (r, s)) (filter (\<lambda>r. src r = x) (reactions_into w t))
      else jobs_into w t)"
  by (auto simp: settle_promise_def reactions_into_def jobs_into_def can_settle_def filter_map comp_def conj_commute)

lemma outcome_not_pending [simp]: "outcome_of r s \<noteq> Pending"
  by (cases s) (auto simp: resolved_def split: option.splits)

lemma link_settle_other:
  assumes "link_inv w r" and "x \<noteq> target r \<or> \<not> can_settle w x"
  shows "link_inv (settle_promise x s w) r"
  using assms
  by (auto simp: link_inv_def pstate_of_settle reactions_into_settle jobs_into_settle can_settle_def
      split: pstate.splits)

lemma not_thenable_result [simp]: "\<not> awaitable_shaped (mk_result v)" "\<not> awaitable_shaped (mk_error v)"
  by (simp_all add: awaitable_shaped_def mk_result_def mk_error_def)

lemma pstate_of_resolve:
  "pstate_of (resolve_promise x v w) y =
     (if y = x \<and> can_settle w x then resolved v else pstate_of w y)"
proof (cases "awaitable_shaped v")
  case True
  then show ?thesis
    by (auto simp: resolve_promise_def resolved_def can_settle_def pstate_of_def)
next
  case False
  then show ?thesis
    by (simp add: resolve_promise_def resolved_def pstate_of_settle)
qed

lemma length_resolve [simp]: "length (pstates (resolve_promise x v w)) = length (pstates w)"
  by (simp add: resolve_promise_def)

lemma reactions_into_resolve:
  "reactions_into (resolve_promise x v w) t =
     (if can_settle w x \<and> \<not> awaitable_shaped v then filter (\<lambda>r. src r \<noteq> x) (reactions_into w t) else reactions_into w t)"
proof (cases "awaitable_shaped v")
  case True
  then show ?thesis by (simp add: resolve_promise_def reactions_into_def)
next
  case False
  then show ?thesis by (simp add: resolve_promise_def reactions_into_settle)
qed

lemma jobs_into_resolve:
  "jobs_into (resolve_promise x v w) t =
     (if can_settle w x \<and> \<not> awaitable_shaped v
      then jobs_into w t @ map (\<lambda>r. (r, Fulfil v)) (filter (\<lambda>r. src r = x) (reactions_into w t))
      else jobs_into w t)"
proof (cases "awaitable_shaped v")
  case True
  then show ?thesis by (simp add: resolve_promise_def jobs_into_def)
next
  case False
  then show ?thesis by (simp add: resolve_promise_def jobs_into_settle)
qed

lemma link_resolve_other:
  assumes "link_inv w r" and "x \<noteq> target r \<or> \<not> can_settle w x"
  shows "link_inv (resolve_promise x v w) r"
  using assms
  by (auto simp: link_inv_def pstate_of_resolve reactions_into_resolve jobs_into_resolve can_settle_def resolved_def
      split: pstate.splits)

text \<open>Taking the first job off the queue.\<close>

lemma pstate_of_jobs_upd [simp]: "pstate_of (w\<lparr>jobs := js\<rparr>) y = pstate_of w y"
  by (simp add: pstate_of_def)

lemma reactions_into_jobs_upd [simp]: "reactions_into (w\<lparr>jobs := js\<rparr>) t = reactions_into w t"
  by (simp add: reactions_into_def)

lemma can_settle_jobs_upd [simp]: "can_settle (w\<lparr>jobs := js\<rparr>) y = can_settle w y"
  by (simp add: can_settle_def)

lemma link_pop_other:
  assumes "link_inv w r" and "jobs w = (r', s) # js" and "target r' \<noteq> target r"
  shows "link_inv (w\<lparr>jobs := js\<rparr>) r"
  using assms by (auto simp: link_inv_def jobs_into_def split: pstate.splits)

lemma link_run_job: 
  assumes "link_inv w r"
  shows "link_inv (run_job w) r"
proof (cases "jobs w")
  case Nil
  then show ?thesis using assms by (simp add: run_job_def)
next
  case (Cons j js)
  obtain r' s where j: "j = (r', s)" by (cases j)
  show ?thesis
  proof (cases "target r' = target r")
    case False
    then have "link_inv (w\<lparr>jobs := js\<rparr>) r"
      using link_pop_other assms Cons j by blast
    then show ?thesis using False Cons j
      by (auto simp: run_job_def Let_def link_resolve_other link_settle_other
          split: settlement.splits option.splits)
  next
    case True
    then have mem: "(r', s) \<in> set (jobs_into w (target r))"
      using Cons j by (simp add: jobs_into_def)
    then have st: "pstate_of w (src r) = Settled s" and r': "r' = r"
      and pend: "pstate_of w (target r) = Pending" and ir: "reactions_into w (target r) = []"
      and ij: "jobs_into w (target r) = [(r, s)]"
      using assms by (auto simp: link_inv_def split: pstate.splits)
    have ij': "jobs_into (w\<lparr>jobs := js\<rparr>) (target r) = []"
      using ij Cons j r' by (simp add: jobs_into_def)
    have lt: "src r < target r" "target r < length (pstates w)"
      using assms by (auto simp: link_inv_def)
    show ?thesis using st r' pend ir ij' lt Cons j
      by (cases s)
        (auto simp: run_job_def Let_def link_inv_def pstate_of_resolve pstate_of_settle
          reactions_into_resolve reactions_into_settle jobs_into_resolve jobs_into_settle can_settle_def resolved_def
          split: option.splits)
  qed
qed

section \<open>Frames, events and the link invariant\<close>

lemma frame_refl [simp]: "frame w w"
  by (simp add: frame_def)

lemma frame_trans: "frame w w1 \<Longrightarrow> frame w1 w2 \<Longrightarrow> frame w w2"
  by (auto simp: frame_def)

lemma link_frame:
  assumes "link_inv w r" and "frame w w'"
  shows "link_inv w' r"
proof -
  have lt: "src r < target r" "target r < length (pstates w)"
    using assms(1) by (auto simp: link_inv_def)
  then have "src r < length (pstates w)" by simp
  then have s: "pstate_of w' (src r) = pstate_of w (src r)"
    using assms(2) by (simp add: frame_def)
  have t: "pstate_of w' (target r) = pstate_of w (target r)"
    "reactions_into w' (target r) = reactions_into w (target r)" "jobs_into w' (target r) = jobs_into w (target r)"
    using assms(2) lt(2) by (simp_all add: frame_def)
  have "target r < length (pstates w')"
    using assms(2) lt(2) by (simp add: frame_def)
  then show ?thesis
    using assms(1) lt(1) by (auto simp: link_inv_def s t split: pstate.splits)
qed

lemma frame_promise_then: "frame w (snd (promise_then p onF onR w))"
  by (auto simp: frame_def promise_then_def Let_def pstate_of_def reactions_into_def jobs_into_def nth_append
      split: pstate.splits)

lemma frame_calls_upd [simp]:
  "frame (w\<lparr>calls := c\<rparr>) w' = frame w w'"
  "frame (w\<lparr>inner_calls := c\<rparr>) w' = frame w w'"
  by (simp_all add: frame_def pstate_of_def reactions_into_def jobs_into_def)

lemma frame_native_then: "frame w (snd (native_then this onF onR w))"
proof (cases this)
  case (Promise p ps)
  then show ?thesis
    using frame_promise_then [of w p onF onR]
    by (simp add: native_then_def case_prod_unfold Let_def frame_refl)
qed (simp_all add: native_then_def)

lemma frame_run_plain: "frame w (snd (run_plain env f this args w))"
  by (auto simp: frame_def run_plain_def pstate_of_def reactions_into_def jobs_into_def
      split: jsval.splits fkind.splits prod.splits)

lemma frame_run_plain_inner:
  "frame w (snd (run_plain env f this args (w\<lparr>inner_calls := c\<rparr>)))"
  using frame_run_plain [of "w\<lparr>inner_calls := c\<rparr>" env f this args] by simp

lemma frame_run_builtin: "frame w (snd (run_builtin env b this args w))"
  by (cases b)
    (auto simp: run_builtin_def frame_native_then frame_run_plain_inner
      split: jsval.splits fkind.splits builtin.splits)

lemma frame_call_function: "frame w (snd (call_function env f this args w))"
proof (cases f)
  case (Fn k ps)
  show ?thesis
  proof (cases k)
    case (Builtin b)
    then show ?thesis
      using Fn frame_run_builtin [of "w\<lparr>calls := calls w @ [(k, args)]\<rparr>" env b this args]
      by (simp add: call_function_def)
  next
    case (User i)
    then show ?thesis
      using Fn frame_run_plain [of "w\<lparr>calls := calls w @ [(k, args)]\<rparr>" env f this args]
      by (simp add: call_function_def)
  next
    case (Closure c)
    then show ?thesis
      using Fn frame_run_plain [of "w\<lparr>calls := calls w @ [(k, args)]\<rparr>" env f this args]
      by (simp add: call_function_def)
  qed
qed (simp_all add: call_function_def)

lemma frame_call_method: "frame w (snd (call_method env recv name cb w))"
proof (cases recv)
  case (Promise p ps)
  then show ?thesis
    by (auto simp: call_method_def frame_call_function frame_run_builtin
        split: jsval.splits fkind.splits)
qed (simp_all add: call_method_def frame_call_function)

lemma frame_then_catch: "frame w (snd (then_catch env x w))"
proof (cases "call_method env x ''then'' WrapResult w")
  case (Pair r w1)
  then have f1: "frame w w1" using frame_call_method [of w env x "''then''" WrapResult] by simp
  show ?thesis
  proof (cases r)
    case (Throw e)
    then show ?thesis using Pair f1 by (simp add: then_catch_def)
  next
    case (Return m)
    then show ?thesis
      using Pair f1 frame_call_method [of w1 env m "''catch''" WrapError]
      by (auto simp: then_catch_def intro: frame_trans)
  qed
qed

lemma frame_dollar_try: "frame w (snd (dollar_try env arg w))"
proof -
  obtain r w1 where c: "call_function env arg Undefined [] w = (r, w1)"
    by (cases "call_function env arg Undefined [] w")
  then have f1: "frame w w1" using frame_call_function [of w env arg Undefined "[]"] by simp
  have f2: "frame w w2" if "then_catch env v w1 = (r', w2)" for v r' w2
    using that f1 frame_then_catch [of w1 env v] by (auto intro: frame_trans)
  show ?thesis
    using c f1 frame_then_catch [of w env arg]
    by (auto simp: dollar_try_def split: outcome.splits prod.splits intro: f2)
qed

lemma targeted_iff: "targeted w p \<longleftrightarrow> reactions_into w p \<noteq> [] \<or> jobs_into w p \<noteq> []"
  by (auto simp: targeted_def reactions_into_def jobs_into_def filter_empty_conv)

lemma link_apply_event:
  assumes "link_inv w r"
  shows "link_inv (apply_event env w ev) r"
proof (cases ev)
  case (Settle x s)
  have "x \<noteq> target r \<or> \<not> can_settle w x" if "\<not> targeted w x"
    using that assms by (auto simp: link_inv_def targeted_iff can_settle_def split: pstate.splits)
  then show ?thesis using Settle assms by (auto intro: link_settle_other)
next
  case RunJob
  then show ?thesis using assms by (simp add: link_run_job)
next
  case (Call arg)
  then show ?thesis using assms frame_dollar_try [of w env arg] by (auto intro: link_frame)
qed

lemma link_run_events: "link_inv w r \<Longrightarrow> link_inv (run_events env evs w) r"
  unfolding run_events_def
  by (induction evs arbitrary: w) (simp_all add: link_apply_event)

lemma link_drain: "link_inv w r \<Longrightarrow> link_inv (drain w) r"
proof (induction w rule: drain.induct)
  case (1 w)
  show ?case
  proof (cases "jobs w = []")
    case True
    then show ?thesis using "1.prems" by (subst drain.simps) simp
  next
    case False
    then show ?thesis using 1 by (subst drain.simps) (simp add: link_run_job)
  qed
qed

lemma jobs_drain: "jobs (drain w) = []"
proof (induction w rule: drain.induct)
  case (1 w)
  then show ?case by (subst drain.simps) simp
qed

lemma settled_run_job:
  "pstate_of w y = Settled s \<Longrightarrow> pstate_of (run_job w) y = Settled s"
  by (auto simp: run_job_def Let_def pstate_of_resolve pstate_of_settle can_settle_def
      split: list.splits settlement.splits option.splits)

lemma settled_drain: "pstate_of w y = Settled s \<Longrightarrow> pstate_of (drain w) y = Settled s"
proof (induction w rule: drain.induct)
  case (1 w)
  then show ?case by (subst drain.simps) (simp add: settled_run_job)
qed

text \<open>Running the queue until it is empty is a sequence of microtask events.\<close>

lemma drain_is_run_events: "\<exists>n. drain w = run_events env (replicate n RunJob) w"
proof (induction w rule: drain.induct)
  case (1 w)
  show ?case
  proof (cases "jobs w = []")
    case True
    then have "drain w = run_events env (replicate 0 RunJob) w"
      by (subst drain.simps) (simp add: run_events_def)
    then show ?thesis by blast
  next
    case False
    then obtain n where "drain (run_job w) = run_events env (replicate n RunJob) (run_job w)"
      using 1 by blast
    then have "drain w = run_events env (replicate (Suc n) RunJob) w"
      using False by (subst drain.simps) (simp add: run_events_def)
    then show ?thesis by blast
  qed
qed

section \<open>The chain \<open>then\<close>, \<open>catch\<close> on a plain promise\<close>

lemma wf_fresh:
  assumes "wf_world w" and "length (pstates w) \<le> t"
  shows "reactions_into w t = []" and "jobs_into w t = []"
  using assms by (auto simp: wf_world_def reactions_into_def jobs_into_def filter_empty_conv)

lemma wf_promise_then:
  assumes "wf_world w"
  shows "wf_world (snd (promise_then p onF onR w))"
  using assms
  by (auto simp: wf_world_def promise_then_def Let_def less_Suc_eq split: pstate.splits)

lemma promise_then_fst: "fst (promise_then p onF onR w) = length (pstates w)"
  by (simp add: promise_then_def Let_def split: pstate.splits)

lemma promise_then_length:
  "length (pstates (snd (promise_then p onF onR w))) = Suc (length (pstates w))"
  by (simp add: promise_then_def Let_def split: pstate.splits)

lemma promise_then_keeps:
  "ustate (snd (promise_then p onF onR w)) = ustate w"
  "calls (snd (promise_then p onF onR w)) = calls w"
  "inner_calls (snd (promise_then p onF onR w)) = inner_calls w"
  by (simp_all add: promise_then_def Let_def split: pstate.splits)

lemma promise_then_link:
  assumes "wf_world w" and "p < length (pstates w)"
  shows "link_inv (snd (promise_then p onF onR w))
           \<lparr>src = p, on_fulfilled = onF, on_rejected = onR, target = length (pstates w)\<rparr>"
  using assms wf_fresh [OF assms(1), of "length (pstates w)"]
  by (auto simp: link_inv_def promise_then_def Let_def pstate_of_def reactions_into_def jobs_into_def nth_append
      split: pstate.splits)

lemma plain_promise_members:
  assumes "plain_promise x p"
  obtains ps where "x = Promise p ps" and "get_member x ''then'' = Fn (Builtin PromiseThen) []"
    and "map_of ps ''constructor'' = None"
  using assms by (cases x) auto

lemma then_catch_promise_eq:
  assumes "plain_promise x p"
  shows "then_catch env x w =
     (Return (Promise (Suc (length (pstates w))) []),
      snd (promise_then (length (pstates w)) None (Some WrapError)
             (snd (promise_then p (Some WrapResult) None w))))"
proof -
  obtain ps where x: "x = Promise p ps" and t: "get_member x ''then'' = Fn (Builtin PromiseThen) []"
    and c: "map_of ps ''constructor'' = None"
    using assms by (rule plain_promise_members)
  have 1: "call_method env x ''then'' WrapResult w =
      (Return (Promise (length (pstates w)) []), snd (promise_then p (Some WrapResult) None w))"
    using t x c
    by (simp add: call_method_def run_builtin_def native_then_def case_prod_unfold Let_def
        promise_then_fst)
  have 2: "call_method env (Promise m []) ''catch'' WrapError v =
      (Return (Promise (length (pstates v)) []), snd (promise_then m None (Some WrapError) v))"
    for m and v :: "'a world"
    by (simp add: call_method_def run_builtin_def native_then_def case_prod_unfold Let_def
        promise_then_fst)
  show ?thesis
    by (simp add: then_catch_def 1 2 promise_then_length)
qed

lemma then_catch_promise_links:
  fixes env :: "'u env" and w w' :: "'u world"
  assumes "wf_world w" and "p < length (pstates w)"
    and w'_def: "w' = snd (then_catch env x w)" and x: "plain_promise x p"
  shows "link_inv w' \<lparr>src = p, on_fulfilled = Some WrapResult, on_rejected = None,
                       target = length (pstates w)\<rparr>"
    and "link_inv w' \<lparr>src = length (pstates w), on_fulfilled = None,
                       on_rejected = Some WrapError, target = Suc (length (pstates w))\<rparr>"
proof -
  let ?w1 = "snd (promise_then p (Some WrapResult) None w)"
  have w': "w' = snd (promise_then (length (pstates w)) None (Some WrapError) ?w1)"
    by (simp add: w'_def then_catch_promise_eq [OF x])
  have wf1: "wf_world ?w1" using assms(1) by (rule wf_promise_then)
  have len1: "length (pstates ?w1) = Suc (length (pstates w))" by (rule promise_then_length)
  have l1: "link_inv ?w1 \<lparr>src = p, on_fulfilled = Some WrapResult, on_rejected = None,
                       target = length (pstates w)\<rparr>"
    using assms(1,2) by (rule promise_then_link)
  show "link_inv w' \<lparr>src = p, on_fulfilled = Some WrapResult, on_rejected = None,
                       target = length (pstates w)\<rparr>"
    unfolding w' using l1 frame_promise_then by (rule link_frame)
  have "link_inv (snd (promise_then (length (pstates w)) None (Some WrapError) ?w1))
     \<lparr>src = length (pstates w), on_fulfilled = None, on_rejected = Some WrapError,
       target = length (pstates ?w1)\<rparr>"
    using wf1 by (rule promise_then_link) (simp add: len1)
  then show "link_inv w' \<lparr>src = length (pstates w), on_fulfilled = None,
                       on_rejected = Some WrapError, target = Suc (length (pstates w))\<rparr>"
    by (simp add: w' len1)
qed

text \<open>What a link says about its derived promise.\<close>

lemma link_target_cases:
  assumes "link_inv w r"
  shows "pstate_of w (target r) = Pending \<or>
         (\<exists>s. pstate_of w (src r) = Settled s \<and> pstate_of w (target r) = outcome_of r s)"
  using assms by (cases "pstate_of w (src r)") (auto simp: link_inv_def)

lemma link_done:
  assumes "link_inv w r" and "jobs w = []" and "pstate_of w (src r) = Settled s"
  shows "pstate_of w (target r) = outcome_of r s"
  using assms by (auto simp: link_inv_def jobs_into_def)

lemma resolved_result [simp]:
  "resolved (mk_result v) = Settled (Fulfil (mk_result v))"
  "resolved (mk_error v) = Settled (Fulfil (mk_error v))"
  by (simp_all add: resolved_def)

lemma outcome_then:
  "outcome_of \<lparr>src = p, on_fulfilled = Some WrapResult, on_rejected = None, target = m\<rparr> (Fulfil v)
     = Settled (Fulfil (mk_result v))"
  "outcome_of \<lparr>src = p, on_fulfilled = Some WrapResult, on_rejected = None, target = m\<rparr> (Reject e)
     = Settled (Reject e)"
  by (simp_all add: resolved_def)

lemma outcome_catch:
  "outcome_of \<lparr>src = m, on_fulfilled = None, on_rejected = Some WrapError, target = q\<rparr>
     (Fulfil (mk_result v)) = Settled (Fulfil (mk_result v))"
  "outcome_of \<lparr>src = m, on_fulfilled = None, on_rejected = Some WrapError, target = q\<rparr> (Reject e)
     = Settled (Fulfil (mk_error e))"
  by (simp_all add: resolved_def)

lemma chain_states:
  assumes l1: "link_inv w \<lparr>src = p, on_fulfilled = Some WrapResult, on_rejected = None, target = m\<rparr>"
    and l2: "link_inv w \<lparr>src = m, on_fulfilled = None, on_rejected = Some WrapError, target = q\<rparr>"
  shows "pstate_of w q = Pending \<or>
         (\<exists>v. pstate_of w p = Settled (Fulfil v) \<and> pstate_of w q = Settled (Fulfil (mk_result v))) \<or>
         (\<exists>e. pstate_of w p = Settled (Reject e) \<and> pstate_of w q = Settled (Fulfil (mk_error e)))"
proof (cases "pstate_of w q = Pending")
  case False
  then obtain sm where sm: "pstate_of w m = Settled sm"
    and q: "pstate_of w q = outcome_of \<lparr>src = m, on_fulfilled = None, on_rejected = Some WrapError, target = q\<rparr> sm"
    using link_target_cases [OF l2] by auto
  then obtain sp where sp: "pstate_of w p = Settled sp"
    and m: "Settled sm = outcome_of \<lparr>src = p, on_fulfilled = Some WrapResult, on_rejected = None, target = m\<rparr> sp"
    using link_target_cases [OF l1] by auto
  show ?thesis
  proof (cases sp)
    case (Fulfil v)
    then have "sm = Fulfil (mk_result v)" using m by (simp add: outcome_then)
    then show ?thesis using q sp Fulfil by (simp add: outcome_catch)
  next
    case (Reject e)
    then have "sm = Reject e" using m by (simp add: outcome_then)
    then show ?thesis using q sp Reject by (simp add: outcome_catch)
  qed
qed simp

lemma chain_delivered:
  assumes l1: "link_inv w \<lparr>src = p, on_fulfilled = Some WrapResult, on_rejected = None, target = m\<rparr>"
    and l2: "link_inv w \<lparr>src = m, on_fulfilled = None, on_rejected = Some WrapError, target = q\<rparr>"
    and j: "jobs w = []"
  shows "pstate_of w p = Settled (Fulfil v) \<Longrightarrow> pstate_of w q = Settled (Fulfil (mk_result v))"
    and "pstate_of w p = Settled (Reject e) \<Longrightarrow> pstate_of w q = Settled (Fulfil (mk_error e))"
proof -
  assume p: "pstate_of w p = Settled (Fulfil v)"
  have "pstate_of w m = Settled (Fulfil (mk_result v))"
    using link_done [OF l1 j] p by (simp add: outcome_then)
  then show "pstate_of w q = Settled (Fulfil (mk_result v))"
    using link_done [OF l2 j] by (simp add: outcome_catch)
next
  assume p: "pstate_of w p = Settled (Reject e)"
  have "pstate_of w m = Settled (Reject e)"
    using link_done [OF l1 j] p by (simp add: outcome_then)
  then show "pstate_of w q = Settled (Fulfil (mk_error e))"
    using link_done [OF l2 j] by (simp add: outcome_catch)
qed

section \<open>What one call of the adapter does\<close>

text \<open>The call \<open>fn()\<close>, with no receiver, leaves the promise store as it is.\<close>

lemma run_plain_store:
  "pstates (snd (run_plain env f this args w)) = pstates w"
  "reactions (snd (run_plain env f this args w)) = reactions w"
  "jobs (snd (run_plain env f this args w)) = jobs w"
  "calls (snd (run_plain env f this args w)) = calls w"
  "inner_calls (snd (run_plain env f this args w)) = inner_calls w"
  by (auto simp: run_plain_def split: jsval.splits fkind.splits prod.splits)

lemma call_function_store:
  "pstates (snd (call_function env f Undefined args w)) = pstates w"
  "reactions (snd (call_function env f Undefined args w)) = reactions w"
  "jobs (snd (call_function env f Undefined args w)) = jobs w"
  by (auto simp: call_function_def Let_def run_builtin_def native_then_def run_plain_store
      split: jsval.splits fkind.splits builtin.splits)

lemma wf_calls_upd [simp]:
  "wf_world (w\<lparr>calls := c\<rparr>) = wf_world w"
  "wf_world (w\<lparr>inner_calls := c\<rparr>) = wf_world w"
  by (simp_all add: wf_world_def)

lemma wf_native_then: "wf_world w \<Longrightarrow> wf_world (snd (native_then this onF onR w))"
proof (cases this)
  case (Promise p ps)
  assume "wf_world w"
  then show ?thesis
    using Promise wf_promise_then [of w p onF onR]
    by (simp add: native_then_def case_prod_unfold Let_def)
qed (simp_all add: native_then_def)

lemma wf_run_plain: "wf_world w \<Longrightarrow> wf_world (snd (run_plain env f this args w))"
  by (simp add: wf_world_def run_plain_store)

lemma wf_run_builtin: "wf_world w \<Longrightarrow> wf_world (snd (run_builtin env b this args w))"
  by (cases b)
    (auto simp: run_builtin_def wf_native_then wf_run_plain
      split: jsval.splits fkind.splits builtin.splits)

lemma wf_call_function: "wf_world w \<Longrightarrow> wf_world (snd (call_function env f this args w))"
  by (auto simp: call_function_def Let_def wf_run_builtin wf_run_plain
      split: jsval.splits fkind.splits)

text \<open>Well-formedness is an invariant of every event.\<close>

lemma wf_settle: "wf_world w \<Longrightarrow> wf_world (settle_promise p s w)"
  by (auto simp: wf_world_def settle_promise_def)

lemma wf_resolve: "wf_world w \<Longrightarrow> wf_world (resolve_promise p x w)"
  by (auto simp: resolve_promise_def wf_settle) (auto simp: wf_world_def)

lemma wf_run_job: "wf_world w \<Longrightarrow> wf_world (run_job w)"
proof (cases "jobs w")
  case Nil
  then show "wf_world w \<Longrightarrow> wf_world (run_job w)" by (simp add: run_job_def)
next
  case (Cons j js)
  assume "wf_world w"
  then have "wf_world (w\<lparr>jobs := js\<rparr>)" using Cons by (simp add: wf_world_def)
  then show "wf_world (run_job w)"
    using Cons
    by (auto simp: run_job_def Let_def wf_settle wf_resolve
        split: prod.splits settlement.splits option.splits)
qed

lemma wf_call_method: "wf_world w \<Longrightarrow> wf_world (snd (call_method env recv name cb w))"
proof (cases recv)
  case (Promise p ps)
  assume "wf_world w"
  then show ?thesis
    using Promise
    by (auto simp: call_method_def wf_call_function wf_run_builtin
        split: jsval.splits fkind.splits)
qed (simp_all add: call_method_def wf_call_function)

lemma wf_then_catch: "wf_world w \<Longrightarrow> wf_world (snd (then_catch env x w))"
proof -
  assume wf: "wf_world w"
  obtain r w1 where c: "call_method env x ''then'' WrapResult w = (r, w1)"
    by (cases "call_method env x ''then'' WrapResult w")
  then have w1: "wf_world w1" using wf wf_call_method [of w env x "''then''" WrapResult] by simp
  show ?thesis
    using c w1 wf_call_method [of w1 env _ "''catch''" WrapError]
    by (cases r) (simp_all add: then_catch_def)
qed

lemma wf_dollar_try: "wf_world w \<Longrightarrow> wf_world (snd (dollar_try env arg w))"
proof -
  assume wf: "wf_world w"
  obtain r w1 where c: "call_function env arg Undefined [] w = (r, w1)"
    by (cases "call_function env arg Undefined [] w")
  then have w1: "wf_world w1" using wf wf_call_function [of w env arg Undefined "[]"] by simp
  have t: "wf_world w2" if "then_catch env v w1 = (r', w2)" for v r' w2
    using that w1 wf_then_catch [of w1 env v] by simp
  show ?thesis
    using c wf w1 wf_then_catch [of w env arg]
    by (auto simp: dollar_try_def split: outcome.splits prod.splits intro: t)
qed

lemma wf_apply_event: "wf_world w \<Longrightarrow> wf_world (apply_event env w ev)"
  by (cases ev) (simp_all add: wf_settle wf_run_job wf_dollar_try)

lemma wf_run_events: "wf_world w \<Longrightarrow> wf_world (run_events env evs w)"
  unfolding run_events_def
  by (induction evs arbitrary: w) (simp_all add: wf_apply_event)

lemma wf_empty:
  "wf_world \<lparr>ustate = u, calls = [], inner_calls = [], pstates = [], reactions = [], jobs = []\<rparr>"
  by (simp add: wf_world_def)

lemma promise_then_pstates:
  "pstates (snd (promise_then p onF onR w)) = pstates w @ [Pending]"
  by (simp add: promise_then_def Let_def split: pstate.splits)

lemma then_catch_promise_store:
  assumes "plain_promise x p"
  shows "pstates (snd (then_catch env x w)) = pstates w @ [Pending, Pending]"
    and "ustate (snd (then_catch env x w)) = ustate w"
    and "calls (snd (then_catch env x w)) = calls w"
    and "inner_calls (snd (then_catch env x w)) = inner_calls w"
  by (simp_all add: then_catch_promise_eq [OF assms] promise_then_pstates promise_then_keeps)

lemma awaitable_promise: "plain_promise x p \<Longrightarrow> awaitable_shaped x"
  by (cases x) (auto simp: awaitable_shaped_def)

text \<open>The world in which the chain on the awaited promise is built.\<close>

lemma dollar_try_awaits:
  assumes "awaits env arg w p"
  obtains x where "plain_promise x p"
    and "dollar_try env arg w =
           then_catch env x
             (if plain_promise arg p then w else snd (call_function env arg Undefined [] w))"
proof (cases "plain_promise arg p")
  case True
  then have "dollar_try env arg w = then_catch env arg w"
    by (simp add: dollar_try_def awaitable_promise)
  then show ?thesis using True that by simp
next
  case False
  then have f: "typeof arg = ''function''" "\<not> awaitable_shaped arg"
    using assms by (auto simp: awaits_def)
  obtain x where c: "fst (call_function env arg Undefined [] w) = Return x"
    and x: "plain_promise x p"
    using assms False by (auto simp: awaits_def split: outcome.splits)
  obtain w1 where w1: "call_function env arg Undefined [] w = (Return x, w1)"
    using c by (cases "call_function env arg Undefined [] w") auto
  have "dollar_try env arg w = then_catch env x w1"
    using f w1 x by (simp add: dollar_try_def awaitable_promise then_catch_promise_eq [OF x])
  then show ?thesis using False x w1 that by simp
qed

lemma try_chain:
  assumes wf: "wf_world w" and p: "p < length (pstates w)" and a: "awaits env arg w p"
  shows "fst (dollar_try env arg w) = Return (Promise (Suc (length (pstates w))) [])"
    and "pstate_of (snd (dollar_try env arg w)) (Suc (length (pstates w))) = Pending"
    and "link_inv (snd (dollar_try env arg w))
           \<lparr>src = p, on_fulfilled = Some WrapResult, on_rejected = None,
             target = length (pstates w)\<rparr>"
    and "link_inv (snd (dollar_try env arg w))
           \<lparr>src = length (pstates w), on_fulfilled = None, on_rejected = Some WrapError,
             target = Suc (length (pstates w))\<rparr>"
proof -
  let ?w1 = "if plain_promise arg p then w else snd (call_function env arg Undefined [] w)"
  obtain x where x: "plain_promise x p" and eq: "dollar_try env arg w = then_catch env x ?w1"
    using a by (rule dollar_try_awaits)
  have len: "pstates ?w1 = pstates w" by (simp add: call_function_store)
  have wf1: "wf_world ?w1" using wf by (simp add: wf_call_function)
  have p1: "p < length (pstates ?w1)" using p len by simp
  show "fst (dollar_try env arg w) = Return (Promise (Suc (length (pstates w))) [])"
    unfolding eq by (simp add: then_catch_promise_eq [OF x] call_function_store)
  show "pstate_of (snd (dollar_try env arg w)) (Suc (length (pstates w))) = Pending"
    unfolding eq by (simp add: pstate_of_def then_catch_promise_store [OF x] len nth_append)
  show "link_inv (snd (dollar_try env arg w))
           \<lparr>src = p, on_fulfilled = Some WrapResult, on_rejected = None,
             target = length (pstates w)\<rparr>"
    using then_catch_promise_links(1) [OF wf1 p1 refl x, of env] unfolding eq len .
  show "link_inv (snd (dollar_try env arg w))
           \<lparr>src = length (pstates w), on_fulfilled = None, on_rejected = Some WrapError,
             target = Suc (length (pstates w))\<rparr>"
    using then_catch_promise_links(2) [OF wf1 p1 refl x, of env] unfolding eq len .
qed

lemma try_chain_states:
  assumes "wf_world w" and "p < length (pstates w)" and "awaits env arg w p"
  shows "pstate_of (run_events env evs (snd (dollar_try env arg w))) (Suc (length (pstates w))) = Pending \<or>
    (\<exists>v. pstate_of (run_events env evs (snd (dollar_try env arg w))) p = Settled (Fulfil v) \<and>
         pstate_of (run_events env evs (snd (dollar_try env arg w))) (Suc (length (pstates w)))
           = Settled (Fulfil (mk_result v))) \<or>
    (\<exists>e. pstate_of (run_events env evs (snd (dollar_try env arg w))) p = Settled (Reject e) \<and>
         pstate_of (run_events env evs (snd (dollar_try env arg w))) (Suc (length (pstates w)))
           = Settled (Fulfil (mk_error e)))"
  by (rule chain_states) (rule link_run_events, rule try_chain [OF assms])+

lemma try_chain_drained:
  assumes "wf_world w" and "p < length (pstates w)" and "awaits env arg w p"
  shows "pstate_of (run_events env evs (snd (dollar_try env arg w))) p = Settled (Fulfil v) \<Longrightarrow>
         pstate_of (drain (run_events env evs (snd (dollar_try env arg w)))) (Suc (length (pstates w)))
           = Settled (Fulfil (mk_result v))"
    and "pstate_of (run_events env evs (snd (dollar_try env arg w))) p = Settled (Reject e) \<Longrightarrow>
         pstate_of (drain (run_events env evs (snd (dollar_try env arg w)))) (Suc (length (pstates w)))
           = Settled (Fulfil (mk_error e))"
proof -
  let ?w = "run_events env evs (snd (dollar_try env arg w))"
  have l1: "link_inv (drain ?w) \<lparr>src = p, on_fulfilled = Some WrapResult, on_rejected = None,
             target = length (pstates w)\<rparr>"
    by (rule link_drain, rule link_run_events, rule try_chain [OF assms])
  have l2: "link_inv (drain ?w) \<lparr>src = length (pstates w), on_fulfilled = None,
             on_rejected = Some WrapError, target = Suc (length (pstates w))\<rparr>"
    by (rule link_drain, rule link_run_events, rule try_chain [OF assms])
  show "pstate_of ?w p = Settled (Fulfil v) \<Longrightarrow>
         pstate_of (drain ?w) (Suc (length (pstates w))) = Settled (Fulfil (mk_result v))"
    using chain_delivered(1) [OF l1 l2 jobs_drain] settled_drain by blast
  show "pstate_of ?w p = Settled (Reject e) \<Longrightarrow>
         pstate_of (drain ?w) (Suc (length (pstates w))) = Settled (Fulfil (mk_error e))"
    using chain_delivered(2) [OF l1 l2 jobs_drain] settled_drain by blast
qed

lemma ex_world_wf: "wf_world ex_world"
  by (simp add: wf_world_def ex_world_def)

section \<open>The synchronous paths\<close>

text \<open>
  C1 (amended). For every function \<open>fn\<close> that is not awaitable-shaped (it exposes no
  callable \<open>then\<close> member) and raises \<open>e\<close> when invoked, \<open>$try(fn)\<close> does not raise: it
  returns at once the failure Result \<open>{ error: e }\<close>, a plain object and not an
  awaitable, whose failure slot is \<open>e\<close> itself, whatever kind of value \<open>e\<close> is, and
  whose value slot is absent. The world is the one the invocation of \<open>fn\<close> left.
\<close>

theorem try_sync_raise:
  assumes "typeof fn = ''function''" and "\<not> awaitable_shaped fn"
    and "call_function env fn Undefined [] w = (Throw e, w1)"
  shows "dollar_try env fn w = (Return (mk_error e), w1) \<and>
         get_member (mk_error e) ''error'' = e \<and> \<not> has_own (mk_error e) ''result'' \<and>
         typeof (mk_error e) = ''object'' \<and> \<not> awaitable_shaped (mk_error e)"
proof -
  have "dollar_try env fn w = (Return (mk_error e), w1)"
    using assms by (simp add: dollar_try_def)
  moreover have "get_member (mk_error e) ''error'' = e" "\<not> has_own (mk_error e) ''result''"
    "typeof (mk_error e) = ''object''"
    by (simp_all add: mk_error_def)
  ultimately show ?thesis by simp
qed

text \<open>The theorem at a function that raises the number 0, a value that is not an Error.\<close>

theorem try_sync_raise_witness:
  "typeof (Fn (User 0) []) = ''function'' \<and> \<not> awaitable_shaped (Fn (User 0) []) \<and>
   call_function ex_env (Fn (User 0) []) Undefined [] ex_world
     = (Throw (Num 0), ex_world\<lparr>calls := [(User 0, [])]\<rparr>) \<and>
   dollar_try ex_env (Fn (User 0) []) ex_world
     = (Return (mk_error (Num 0)), ex_world\<lparr>calls := [(User 0, [])]\<rparr>)"
proof -
  have t: "typeof (Fn (User 0) []) = ''function''" by simp
  have a: "\<not> awaitable_shaped (Fn (User 0) [])" by (simp add: awaitable_shaped_def)
  have c: "call_function ex_env (Fn (User 0) []) Undefined [] ex_world
     = (Throw (Num 0), ex_world\<lparr>calls := [(User 0, [])]\<rparr>)"
    by code_simp
  show ?thesis using t a c try_sync_raise [OF t a c] by simp
qed

text \<open>
  C1 as stated fails for a function that carries a callable \<open>then\<close> member: the function
  below raises 0 when invoked, but \<open>$try\<close> takes it for an awaitable, calls its \<open>then\<close>
  (which returns \<open>undefined\<close>), and the TypeError of \<open>undefined.catch\<close> leaves \<open>$try\<close>
  as an exception.
\<close>

theorem try_sync_raise_counterexample:
  "typeof (Fn (User 0) [(''then'', Fn (User 3) [])]) = ''function'' \<and>
   fst (call_function ex_env (Fn (User 0) [(''then'', Fn (User 3) [])]) Undefined [] ex_world)
     = Throw (Num 0) \<and>
   fst (dollar_try ex_env (Fn (User 0) [(''then'', Fn (User 3) [])]) ex_world)
     = Throw (type_error ''cannot read properties of undefined'')"
  by code_simp

section \<open>The call logs\<close>

lemma native_then_calls:
  "calls (snd (native_then this onF onR w)) = calls w"
  "inner_calls (snd (native_then this onF onR w)) = inner_calls w"
  by (auto simp: native_then_def case_prod_unfold Let_def promise_then_keeps
      split: jsval.splits)

lemma run_builtin_calls: "calls (snd (run_builtin env b this args w)) = calls w"
  by (cases b)
    (auto simp: run_builtin_def native_then_calls run_plain_store
      split: jsval.splits fkind.splits builtin.splits)

lemma call_function_calls:
  "calls (snd (call_function env f this args w)) =
     (case f of Fn k ps \<Rightarrow> calls w @ [(k, args)] | _ \<Rightarrow> calls w)"
  by (auto simp: call_function_def Let_def run_builtin_calls run_plain_store
      split: jsval.splits fkind.splits)

text \<open>A method call adds nothing to the log, or the one call of the member it read.\<close>

lemma call_method_calls_cases:
  "calls (snd (call_method env recv name cb w)) = calls w \<or>
   (\<exists>k ps. get_member recv name = Fn k ps \<and>
      calls (snd (call_method env recv name cb w)) = calls w @ [(k, [Fn (Closure cb) []])])"
proof (cases "get_member recv name")
  case (Fn k ps)
  then show ?thesis
    by (cases recv; cases k)
      (simp_all add: call_method_def call_function_calls run_builtin_calls)
qed (cases recv; simp add: call_method_def call_function_calls)+

lemma call_method_calls:
  "\<exists>rest. calls (snd (call_method env recv name cb w)) = calls w @ rest \<and>
          (\<forall>c \<in> set rest. snd c = [Fn (Closure cb) []])"
proof -
  from call_method_calls_cases [of env recv name cb w] show ?thesis
  proof
    assume "calls (snd (call_method env recv name cb w)) = calls w"
    then have "calls (snd (call_method env recv name cb w)) = calls w @ [] \<and>
          (\<forall>c \<in> set []. snd c = [Fn (Closure cb) []])"
      by simp
    then show ?thesis by (rule exI)
  next
    assume "\<exists>k ps. get_member recv name = Fn k ps \<and>
      calls (snd (call_method env recv name cb w)) = calls w @ [(k, [Fn (Closure cb) []])]"
    then obtain k where
      "calls (snd (call_method env recv name cb w)) = calls w @ [(k, [Fn (Closure cb) []])]"
      by blast
    then have "calls (snd (call_method env recv name cb w)) = calls w @ [(k, [Fn (Closure cb) []])] \<and>
          (\<forall>c \<in> set [(k, [Fn (Closure cb) []])]. snd c = [Fn (Closure cb) []])"
      by simp
    then show ?thesis by (rule exI)
  qed
qed






section \<open>Dispatch\<close>

text \<open>
  C7 (amended). For every input that is neither awaitable-shaped nor a function,
  \<open>$try\<close> raises its TypeError (\<open>$try expects a function or a Promise\<close>) at once:
  nothing is invoked and the world is unchanged. For every input that is a plain
  promise (an instance of the built-in \<open>Promise\<close> with neither an own \<open>then\<close> nor an
  own \<open>constructor\<close>), or a function that is not awaitable-shaped, \<open>$try\<close> does not
  raise: it returns a value. In all, \<open>$try\<close> raises for exactly two classes of
  input: the type mismatch, and an awaitable-shaped input whose
  \<open>then\<close>/\<open>catch\<close> chain, called outside the \<open>try\<close> block, raises.
\<close>

theorem try_type_mismatch:
  "(\<not> awaitable_shaped arg \<and> typeof arg \<noteq> ''function'' \<longrightarrow>
      dollar_try env arg w = (Throw (type_error ''$try expects a function or a Promise''), w)) \<and>
   ((\<exists>p. plain_promise arg' p) \<or> (typeof arg' = ''function'' \<and> \<not> awaitable_shaped arg') \<longrightarrow>
      (\<exists>r. fst (dollar_try env' arg' w') = Return r)) \<and>
   ((\<exists>e. fst (dollar_try env'' arg'' w'') = Throw e) =
      ((\<not> awaitable_shaped arg'' \<and> typeof arg'' \<noteq> ''function'') \<or>
       (awaitable_shaped arg'' \<and> (\<exists>e. fst (then_catch env'' arg'' w'') = Throw e))))"
proof (intro conjI impI)
  assume "\<not> awaitable_shaped arg \<and> typeof arg \<noteq> ''function''"
  then show "dollar_try env arg w = (Throw (type_error ''$try expects a function or a Promise''), w)"
    by (simp add: dollar_try_def)
next
  assume "(\<exists>p. plain_promise arg' p) \<or> (typeof arg' = ''function'' \<and> \<not> awaitable_shaped arg')"
  then show "\<exists>r. fst (dollar_try env' arg' w') = Return r"
  proof
    assume "\<exists>p. plain_promise arg' p"
    then obtain p where p: "plain_promise arg' p" ..
    then have "dollar_try env' arg' w' = then_catch env' arg' w'"
      by (simp add: dollar_try_def awaitable_promise)
    then show ?thesis by (simp add: then_catch_promise_eq [OF p])
  next
    assume "typeof arg' = ''function'' \<and> \<not> awaitable_shaped arg'"
    then show ?thesis
      by (auto simp: dollar_try_def split: prod.splits outcome.splits)
  qed
next
  show "(\<exists>e. fst (dollar_try env'' arg'' w'') = Throw e) =
      ((\<not> awaitable_shaped arg'' \<and> typeof arg'' \<noteq> ''function'') \<or>
       (awaitable_shaped arg'' \<and> (\<exists>e. fst (then_catch env'' arg'' w'') = Throw e)))"
  proof (cases "awaitable_shaped arg''")
    case True
    then show ?thesis by (simp add: dollar_try_def)
  next
    case False
    show ?thesis
    proof (cases "typeof arg'' = ''function''")
      case True
      then have "\<exists>r. fst (dollar_try env'' arg'' w'') = Return r"
        using False by (auto simp: dollar_try_def split: prod.splits outcome.splits)
      then show ?thesis using False True by auto
    next
      case False
      then show ?thesis using \<open>\<not> awaitable_shaped arg''\<close> by (simp add: dollar_try_def)
    qed
  qed
qed

text \<open>
  The theorem at the number 123 (scenario 6 of the specification), at a plain
  function, and at an object whose \<open>then\<close> member raises 0.
\<close>

theorem try_type_mismatch_witness:
  "\<not> awaitable_shaped (Num 123) \<and> typeof (Num 123) \<noteq> ''function'' \<and>
   dollar_try ex_env (Num 123) ex_world
     = (Throw (type_error ''$try expects a function or a Promise''), ex_world) \<and>
   typeof (Fn (User 1) []) = ''function'' \<and> \<not> awaitable_shaped (Fn (User 1) []) \<and>
   (\<exists>r. fst (dollar_try ex_env (Fn (User 1) []) ex_world) = Return r) \<and>
   awaitable_shaped (Obj False [(''then'', Fn (User 0) [])]) \<and>
   fst (then_catch ex_env (Obj False [(''then'', Fn (User 0) [])]) ex_world) = Throw (Num 0) \<and>
   (\<exists>e. fst (dollar_try ex_env (Obj False [(''then'', Fn (User 0) [])]) ex_world) = Throw e)"
proof -
  have n: "\<not> awaitable_shaped (Num 123)" "typeof (Num 123) \<noteq> ''function''"
    by code_simp+
  have f: "typeof (Fn (User 1) []) = ''function''" "\<not> awaitable_shaped (Fn (User 1) [])"
    by code_simp+
  have a: "awaitable_shaped (Obj False [(''then'', Fn (User 0) [])])" by code_simp
  have c: "fst (then_catch ex_env (Obj False [(''then'', Fn (User 0) [])]) ex_world) = Throw (Num 0)"
    by code_simp
  note T = try_type_mismatch [of "Num 123" ex_env ex_world "Fn (User 1) []" ex_env ex_world
      ex_env "Obj False [(''then'', Fn (User 0) [])]" ex_world]
  have r1: "dollar_try ex_env (Num 123) ex_world
     = (Throw (type_error ''$try expects a function or a Promise''), ex_world)"
    using T [THEN conjunct1] n by simp
  have r2: "\<exists>r. fst (dollar_try ex_env (Fn (User 1) []) ex_world) = Return r"
    using T [THEN conjunct2, THEN conjunct1] f by simp
  have "\<exists>e. fst (then_catch ex_env (Obj False [(''then'', Fn (User 0) [])]) ex_world) = Throw e"
    using c by simp
  then have r3: "\<exists>e. fst (dollar_try ex_env (Obj False [(''then'', Fn (User 0) [])]) ex_world) = Throw e"
    using T [THEN conjunct2, THEN conjunct2] a by simp
  show ?thesis
    by (intro conjI) (rule n f a c r1 r2 r3)+
qed

text \<open>
  C7 as stated fails in its last part: the type mismatch is not the only input class
  for which \<open>$try\<close> raises. Each input below is awaitable-shaped, and \<open>$try\<close> calls
  its \<open>then\<close> outside the \<open>try\<close> block. The object's \<open>then\<close> raises 0, which leaves
  \<open>$try\<close> as an exception. So does the 0 raised by the \<open>then\<close> that replaced the
  built-in one on the promise 0. The promise 0 whose \<open>constructor\<close> property was set
  to 0 makes the built-in \<open>then\<close> raise a TypeError. The function with a \<open>then\<close>
  member that returns \<open>undefined\<close> makes \<open>$try\<close> raise the TypeError of
  \<open>undefined.catch\<close>.
\<close>

theorem try_type_mismatch_counterexample:
  "awaitable_shaped (Obj False [(''then'', Fn (User 0) [])]) \<and>
   dollar_try ex_env (Obj False [(''then'', Fn (User 0) [])]) ex_world
     = (Throw (Num 0), ex_world\<lparr>calls := [(User 0, [Fn (Closure WrapResult) []])]\<rparr>) \<and>
   awaitable_shaped (Promise 0 [(''then'', Fn (User 0) [])]) \<and>
   fst (dollar_try ex_env (Promise 0 [(''then'', Fn (User 0) [])]) ex_world) = Throw (Num 0) \<and>
   awaitable_shaped (Promise 0 [(''constructor'', Num 0)]) \<and>
   fst (dollar_try ex_env (Promise 0 [(''constructor'', Num 0)]) ex_world)
     = Throw (type_error ''constructor is not an object'') \<and>
   typeof (Fn (User 1) [(''then'', Fn (User 3) [])]) = ''function'' \<and>
   fst (dollar_try ex_env (Fn (User 1) [(''then'', Fn (User 3) [])]) ex_world)
     = Throw (type_error ''cannot read properties of undefined'')"
  by code_simp

text \<open>
  C10. For every input that is a function and awaitable-shaped, \<open>$try\<close> is the
  \<open>then\<close>/\<open>catch\<close> chain on the input: the first call it makes is the input's
  \<open>then\<close> member, with the success continuation as its one argument, and every later
  call carries the failure continuation as its one argument. So no call without
  arguments is made: the input itself is not invoked as a zero-argument callable.
\<close>

theorem try_callable_thenable:
  assumes "typeof arg = ''function''" and "awaitable_shaped arg"
  shows "dollar_try env arg w = then_catch env arg w \<and>
         (\<exists>k ps rest. get_member arg ''then'' = Fn k ps \<and>
            calls (snd (dollar_try env arg w)) = calls w @ (k, [Fn (Closure WrapResult) []]) # rest \<and>
            (\<forall>c \<in> set rest. snd c = [Fn (Closure WrapError) []]))"
proof -
  have eq: "dollar_try env arg w = then_catch env arg w"
    using assms by (simp add: dollar_try_def)
  obtain kk pp where arg: "arg = Fn kk pp"
    using assms(1) by (cases arg) auto
  obtain k ps where th: "get_member arg ''then'' = Fn k ps"
    using assms(2) by (cases "get_member arg ''then''") (auto simp: awaitable_shaped_def)
  obtain r w1 where c: "call_function env (Fn k ps) arg [Fn (Closure WrapResult) []] w = (r, w1)"
    by (cases "call_function env (Fn k ps) arg [Fn (Closure WrapResult) []] w")
  have m: "call_method env arg ''then'' WrapResult w = (r, w1)"
    using arg th c by (simp add: call_method_def)
  have l1: "calls w1 = calls w @ [(k, [Fn (Closure WrapResult) []])]"
    using call_function_calls [of env "Fn k ps" arg "[Fn (Closure WrapResult) []]" w] c by simp
  have "\<exists>rest. calls (snd (then_catch env arg w)) = calls w @ (k, [Fn (Closure WrapResult) []]) # rest \<and>
            (\<forall>c \<in> set rest. snd c = [Fn (Closure WrapError) []])"
  proof (cases r)
    case (Throw e)
    then show ?thesis using m l1 by (simp add: then_catch_def)
  next
    case (Return x)
    obtain rest where "calls (snd (call_method env x ''catch'' WrapError w1)) = calls w1 @ rest"
      "\<forall>c \<in> set rest. snd c = [Fn (Closure WrapError) []]"
      using call_method_calls [of env x "''catch''" WrapError w1] by auto
    then show ?thesis using m l1 Return by (simp add: then_catch_def)
  qed
  then show ?thesis using eq th by simp
qed

text \<open>
  The theorem at a function that would return 42 and whose \<open>then\<close> member hands
  out the promise 0: the only call logged is that of the \<open>then\<close> member.
\<close>

theorem try_callable_thenable_witness:
  "typeof (Fn (User 1) [(''then'', Fn (User 2) [])]) = ''function'' \<and>
   awaitable_shaped (Fn (User 1) [(''then'', Fn (User 2) [])]) \<and>
   dollar_try ex_env (Fn (User 1) [(''then'', Fn (User 2) [])]) ex_world
     = then_catch ex_env (Fn (User 1) [(''then'', Fn (User 2) [])]) ex_world \<and>
   calls (snd (dollar_try ex_env (Fn (User 1) [(''then'', Fn (User 2) [])]) ex_world))
     = [(User 2, [Fn (Closure WrapResult) []])]"
proof -
  have t: "typeof (Fn (User 1) [(''then'', Fn (User 2) [])]) = ''function''" by simp
  have a: "awaitable_shaped (Fn (User 1) [(''then'', Fn (User 2) [])])"
    by (simp add: awaitable_shaped_def)
  have c: "calls (snd (then_catch ex_env (Fn (User 1) [(''then'', Fn (User 2) [])]) ex_world))
     = [(User 2, [Fn (Closure WrapResult) []])]"
    by code_simp
  show ?thesis
    using t a c try_callable_thenable [OF t a, of ex_env ex_world] by simp
qed




section \<open>The asynchronous paths\<close>

text \<open>
  C2 (amended). Let \<open>p\<close> be a plain promise: an instance of the built-in \<open>Promise\<close>
  with neither an own \<open>then\<close> nor an own \<open>constructor\<close> property, so that its
  \<open>then\<close> is the built-in one and derives an instance of \<open>Promise\<close>. Let it be passed
  to \<open>$try\<close> directly or returned by a function that is not awaitable-shaped itself.
  Then \<open>$try\<close> returns a new promise, pending at the return; whatever happens
  afterwards (settlements by the outside world, microtasks, further calls of
  \<open>$try\<close>), that promise is never rejected; and once \<open>p\<close> is rejected with reason
  \<open>e\<close>, running the microtask queue fulfils the returned promise with the failure
  Result \<open>{ error: e }\<close>.
\<close>

theorem try_rejection:
  assumes "wf_world w" and "p < length (pstates w)" and "awaits env arg w p"
  shows "fst (dollar_try env arg w) = Return (Promise (Suc (length (pstates w))) []) \<and>
         pstate_of (snd (dollar_try env arg w)) (Suc (length (pstates w))) = Pending \<and>
         (\<forall>evs r. pstate_of (run_events env evs (snd (dollar_try env arg w)))
                    (Suc (length (pstates w))) \<noteq> Settled (Reject r)) \<and>
         (\<forall>evs e. pstate_of (run_events env evs (snd (dollar_try env arg w))) p = Settled (Reject e) \<longrightarrow>
            pstate_of (drain (run_events env evs (snd (dollar_try env arg w))))
              (Suc (length (pstates w))) = Settled (Fulfil (mk_error e)))"
proof (intro conjI allI impI)
  show "fst (dollar_try env arg w) = Return (Promise (Suc (length (pstates w))) [])"
    using assms by (rule try_chain)
  show "pstate_of (snd (dollar_try env arg w)) (Suc (length (pstates w))) = Pending"
    using assms by (rule try_chain)
next
  fix evs r
  show "pstate_of (run_events env evs (snd (dollar_try env arg w))) (Suc (length (pstates w)))
      \<noteq> Settled (Reject r)"
    using try_chain_states [OF assms, of evs] by auto
next
  fix evs e
  assume "pstate_of (run_events env evs (snd (dollar_try env arg w))) p = Settled (Reject e)"
  then show "pstate_of (drain (run_events env evs (snd (dollar_try env arg w))))
      (Suc (length (pstates w))) = Settled (Fulfil (mk_error e))"
    using assms by (rule try_chain_drained(2) [rotated 3])
qed

text \<open>
  The theorem at the promise 0 passed directly, and at a function returning it, with
  the promise rejected after \<open>$try\<close> has returned (scenario 4 of the specification).
\<close>

theorem try_rejection_witness:
  "wf_world ex_world \<and> 0 < length (pstates ex_world) \<and>
   awaits ex_env (Promise 0 []) ex_world 0 \<and>
   awaits ex_env (Fn (User 2) []) ex_world 0 \<and>
   fst (dollar_try ex_env (Promise 0 []) ex_world) = Return (Promise 2 []) \<and>
   pstate_of (run_events ex_env [Settle 0 (Reject (Str ''net down''))]
                (snd (dollar_try ex_env (Fn (User 2) []) ex_world))) 0
     = Settled (Reject (Str ''net down'')) \<and>
   pstate_of (drain (run_events ex_env [Settle 0 (Reject (Str ''net down''))]
                (snd (dollar_try ex_env (Fn (User 2) []) ex_world)))) 2
     = Settled (Fulfil (mk_error (Str ''net down'')))"
proof -
  have p: "0 < length (pstates ex_world)" by (simp add: ex_world_def)
  have l: "Suc (length (pstates ex_world)) = 2" by (simp add: ex_world_def)
  have a1: "awaits ex_env (Promise 0 []) ex_world 0" by (simp add: awaits_def)
  have a2: "awaits ex_env (Fn (User 2) []) ex_world 0" by code_simp
  have s: "pstate_of (run_events ex_env [Settle 0 (Reject (Str ''net down''))]
                (snd (dollar_try ex_env (Fn (User 2) []) ex_world))) 0
     = Settled (Reject (Str ''net down''))"
    by code_simp
  have r1: "fst (dollar_try ex_env (Promise 0 []) ex_world) = Return (Promise 2 [])"
    using try_rejection [OF ex_world_wf p a1, unfolded l, THEN conjunct1] .
  have r2: "pstate_of (drain (run_events ex_env [Settle 0 (Reject (Str ''net down''))]
                (snd (dollar_try ex_env (Fn (User 2) []) ex_world)))) 2
     = Settled (Fulfil (mk_error (Str ''net down'')))"
    using try_rejection [OF ex_world_wf p a2, unfolded l, THEN conjunct2, THEN conjunct2,
        THEN conjunct2, rule_format, OF s] .
  show ?thesis
    by (intro conjI) (rule ex_world_wf p a1 a2 r1 s r2)+
qed

text \<open>
  C2 as stated fails outside these bounds; in the world below the promise 0 has been
  rejected with \<open>'net down'\<close>.

  A wrapped function that carries a callable \<open>then\<close> member: user function 2 would
  return the rejected promise 0, but \<open>$try\<close> never invokes it; it calls the \<open>then\<close>
  member, and the TypeError of \<open>undefined.catch\<close> leaves \<open>$try\<close> as an exception
  instead of an awaitable being returned.

  The rejected promise 0 with its \<open>then\<close> replaced by user function 0, passed
  directly: the 0 that function raises leaves \<open>$try\<close> as an exception. Returned by a
  wrapped function (function 3 of the second environment, whose promise has function
  4 as \<open>then\<close>): \<open>$try\<close> returns at once \<open>{ error: 0 }\<close>, no awaitable, and the
  failure slot is not the rejection reason.

  The rejected promise 0 with an own \<open>constructor\<close> property that is not an
  object: the built-in \<open>then\<close> raises a TypeError, which leaves \<open>$try\<close>.

  An awaitable that is not a promise, an object whose \<open>then\<close> returns \<open>undefined\<close>
  (as a \<open>then\<close> that only calls or keeps the continuations does): however it
  settles, \<open>$try\<close> raises the TypeError of \<open>undefined.catch\<close>.
\<close>

theorem try_rejection_counterexample:
  "typeof (Fn (User 2) [(''then'', Fn (User 3) [])]) = ''function'' \<and>
   fst (call_function ex_env (Fn (User 2) [(''then'', Fn (User 3) [])]) Undefined []
          (ex_world\<lparr>pstates := [Settled (Reject (Str ''net down''))]\<rparr>)) = Return (Promise 0 []) \<and>
   pstate_of (ex_world\<lparr>pstates := [Settled (Reject (Str ''net down''))]\<rparr>) 0
     = Settled (Reject (Str ''net down'')) \<and>
   fst (dollar_try ex_env (Fn (User 2) [(''then'', Fn (User 3) [])])
          (ex_world\<lparr>pstates := [Settled (Reject (Str ''net down''))]\<rparr>))
     = Throw (type_error ''cannot read properties of undefined'') \<and>
   fst (dollar_try ex_env (Promise 0 [(''then'', Fn (User 0) [])])
          (ex_world\<lparr>pstates := [Settled (Reject (Str ''net down''))]\<rparr>))
     = Throw (Num 0) \<and>
   fst (call_function ex_env2 (Fn (User 3) []) Undefined []
          (ex_world\<lparr>pstates := [Settled (Reject (Str ''net down''))]\<rparr>))
     = Return (Promise 0 [(''then'', Fn (User 4) [])]) \<and>
   fst (dollar_try ex_env2 (Fn (User 3) [])
          (ex_world\<lparr>pstates := [Settled (Reject (Str ''net down''))]\<rparr>))
     = Return (mk_error (Num 0)) \<and>
   fst (dollar_try ex_env (Promise 0 [(''constructor'', Num 0)])
          (ex_world\<lparr>pstates := [Settled (Reject (Str ''net down''))]\<rparr>))
     = Throw (type_error ''constructor is not an object'') \<and>
   awaitable_shaped (Obj False [(''then'', Fn (User 3) [])]) \<and>
   fst (dollar_try ex_env (Obj False [(''then'', Fn (User 3) [])])
          (ex_world\<lparr>pstates := [Settled (Reject (Str ''net down''))]\<rparr>))
     = Throw (type_error ''cannot read properties of undefined'')"
  by code_simp

text \<open>
  C3 (amended). A function that is not awaitable-shaped and returns a value \<open>v\<close> that
  is not awaitable-shaped makes \<open>$try\<close> return at once the success Result
  \<open>{ result: v }\<close>, a plain object whose value slot is \<open>v\<close> and whose failure slot is
  absent. For a plain promise \<open>p\<close> (an instance of the built-in \<open>Promise\<close> with
  neither an own \<open>then\<close> nor an own \<open>constructor\<close> property), passed directly or
  returned by a function that is not awaitable-shaped, \<open>$try\<close> returns a new promise,
  and once \<open>p\<close> is fulfilled with \<open>x\<close>, running the microtask queue fulfils the
  returned promise with \<open>{ result: x }\<close>.
\<close>

theorem try_success:
  "(typeof fn = ''function'' \<and> \<not> awaitable_shaped fn \<and>
    call_function env fn Undefined [] w = (Return v, w1) \<and> \<not> awaitable_shaped v \<longrightarrow>
      dollar_try env fn w = (Return (mk_result v), w1) \<and>
      get_member (mk_result v) ''result'' = v \<and> \<not> has_own (mk_result v) ''error'' \<and>
      \<not> awaitable_shaped (mk_result v)) \<and>
   (wf_world w' \<and> p < length (pstates w') \<and> awaits env arg w' p \<longrightarrow>
      fst (dollar_try env arg w') = Return (Promise (Suc (length (pstates w'))) []) \<and>
      (\<forall>evs x. pstate_of (run_events env evs (snd (dollar_try env arg w'))) p = Settled (Fulfil x) \<longrightarrow>
         pstate_of (drain (run_events env evs (snd (dollar_try env arg w'))))
           (Suc (length (pstates w'))) = Settled (Fulfil (mk_result x))))"
proof (intro conjI impI allI)
  assume "typeof fn = ''function'' \<and> \<not> awaitable_shaped fn \<and>
    call_function env fn Undefined [] w = (Return v, w1) \<and> \<not> awaitable_shaped v"
  then show "dollar_try env fn w = (Return (mk_result v), w1)"
    by (simp add: dollar_try_def)
next
  show "get_member (mk_result v) ''result'' = v" "\<not> has_own (mk_result v) ''error''"
    by (simp_all add: mk_result_def)
  show "\<not> awaitable_shaped (mk_result v)" by simp
next
  assume "wf_world w' \<and> p < length (pstates w') \<and> awaits env arg w' p"
  then show "fst (dollar_try env arg w') = Return (Promise (Suc (length (pstates w'))) [])"
    by (auto intro: try_chain)
next
  fix evs x
  assume "wf_world w' \<and> p < length (pstates w') \<and> awaits env arg w' p"
    and "pstate_of (run_events env evs (snd (dollar_try env arg w'))) p = Settled (Fulfil x)"
  then show "pstate_of (drain (run_events env evs (snd (dollar_try env arg w'))))
           (Suc (length (pstates w'))) = Settled (Fulfil (mk_result x))"
    by (auto intro: try_chain_drained)
qed

text \<open>
  The theorem at a function returning 42 (scenario 1) and at the promise 0, fulfilled
  with \<open>'ok'\<close> after \<open>$try\<close> has returned (scenario 3).
\<close>

theorem try_success_witness:
  "typeof (Fn (User 1) []) = ''function'' \<and> \<not> awaitable_shaped (Fn (User 1) []) \<and>
   call_function ex_env (Fn (User 1) []) Undefined [] ex_world
     = (Return (Num 42), ex_world\<lparr>calls := [(User 1, [])]\<rparr>) \<and>
   \<not> awaitable_shaped (Num 42) \<and>
   dollar_try ex_env (Fn (User 1) []) ex_world
     = (Return (mk_result (Num 42)), ex_world\<lparr>calls := [(User 1, [])]\<rparr>) \<and>
   wf_world ex_world \<and> 0 < length (pstates ex_world) \<and>
   awaits ex_env (Promise 0 []) ex_world 0 \<and>
   fst (dollar_try ex_env (Promise 0 []) ex_world) = Return (Promise 2 []) \<and>
   pstate_of (run_events ex_env [Settle 0 (Fulfil (Str ''ok''))]
                (snd (dollar_try ex_env (Promise 0 []) ex_world))) 0 = Settled (Fulfil (Str ''ok'')) \<and>
   pstate_of (drain (run_events ex_env [Settle 0 (Fulfil (Str ''ok''))]
                (snd (dollar_try ex_env (Promise 0 []) ex_world)))) 2
     = Settled (Fulfil (mk_result (Str ''ok'')))"
proof -
  have t: "typeof (Fn (User 1) []) = ''function''" by simp
  have a: "\<not> awaitable_shaped (Fn (User 1) [])" by code_simp
  have c: "call_function ex_env (Fn (User 1) []) Undefined [] ex_world
     = (Return (Num 42), ex_world\<lparr>calls := [(User 1, [])]\<rparr>)"
    by code_simp
  have n: "\<not> awaitable_shaped (Num 42)" by code_simp
  have p: "0 < length (pstates ex_world)" by (simp add: ex_world_def)
  have l: "Suc (length (pstates ex_world)) = 2" by (simp add: ex_world_def)
  have aw: "awaits ex_env (Promise 0 []) ex_world 0" by (simp add: awaits_def)
  have s: "pstate_of (run_events ex_env [Settle 0 (Fulfil (Str ''ok''))]
                (snd (dollar_try ex_env (Promise 0 []) ex_world))) 0 = Settled (Fulfil (Str ''ok''))"
    by code_simp
  note T = try_success [where fn = "Fn (User 1) []" and env = ex_env and w = ex_world
      and v = "Num 42" and ?w1.0 = "ex_world\<lparr>calls := [(User 1, [])]\<rparr>"
      and w' = ex_world and p = 0 and arg = "Promise 0 []", unfolded l]
  have r1: "dollar_try ex_env (Fn (User 1) []) ex_world
     = (Return (mk_result (Num 42)), ex_world\<lparr>calls := [(User 1, [])]\<rparr>)"
    using T [THEN conjunct1] t a c n by blast
  have r2: "fst (dollar_try ex_env (Promise 0 []) ex_world) = Return (Promise 2 [])"
    using T [THEN conjunct2] ex_world_wf p aw by blast
  have r3: "pstate_of (drain (run_events ex_env [Settle 0 (Fulfil (Str ''ok''))]
                (snd (dollar_try ex_env (Promise 0 []) ex_world)))) 2
     = Settled (Fulfil (mk_result (Str ''ok'')))"
    using T [THEN conjunct2] ex_world_wf p aw s by blast
  show ?thesis
    by (intro conjI) (rule t a c n r1 ex_world_wf p aw r2 s r3)+
qed

text \<open>
  C3 as stated fails outside these bounds; in the world of the last four cases the
  promise 0 has been fulfilled with \<open>'ok'\<close>.

  A wrapped function that carries a callable \<open>then\<close> member: user function 1 returns
  the plain value 42 when invoked, but \<open>$try\<close> does not invoke it and yields no
  success Result; the TypeError of \<open>undefined.catch\<close> leaves it.

  The fulfilled promise 0 with its \<open>then\<close> replaced by user function 0, passed
  directly: the 0 that function raises leaves \<open>$try\<close> as an exception. Returned by a
  wrapped function (function 3 of the second environment): \<open>$try\<close> returns at once
  the failure Result \<open>{ error: 0 }\<close>.

  The fulfilled promise 0 with an own \<open>constructor\<close> property that is not an
  object: the built-in \<open>then\<close> raises a TypeError, which leaves \<open>$try\<close>.

  An awaitable that is not a promise, an object whose \<open>then\<close> returns \<open>undefined\<close>
  (as a \<open>then\<close> that only calls or keeps the continuations does): however it
  settles, \<open>$try\<close> raises the TypeError of \<open>undefined.catch\<close>.
\<close>

theorem try_success_counterexample:
  "typeof (Fn (User 1) [(''then'', Fn (User 3) [])]) = ''function'' \<and>
   fst (call_function ex_env (Fn (User 1) [(''then'', Fn (User 3) [])]) Undefined [] ex_world)
     = Return (Num 42) \<and>
   \<not> awaitable_shaped (Num 42) \<and>
   fst (dollar_try ex_env (Fn (User 1) [(''then'', Fn (User 3) [])]) ex_world)
     = Throw (type_error ''cannot read properties of undefined'') \<and>
   pstate_of (ex_world\<lparr>pstates := [Settled (Fulfil (Str ''ok''))]\<rparr>) 0
     = Settled (Fulfil (Str ''ok'')) \<and>
   fst (dollar_try ex_env (Promise 0 [(''then'', Fn (User 0) [])])
          (ex_world\<lparr>pstates := [Settled (Fulfil (Str ''ok''))]\<rparr>))
     = Throw (Num 0) \<and>
   fst (call_function ex_env2 (Fn (User 3) []) Undefined []
          (ex_world\<lparr>pstates := [Settled (Fulfil (Str ''ok''))]\<rparr>))
     = Return (Promise 0 [(''then'', Fn (User 4) [])]) \<and>
   fst (dollar_try ex_env2 (Fn (User 3) [])
          (ex_world\<lparr>pstates := [Settled (Fulfil (Str ''ok''))]\<rparr>))
     = Return (mk_error (Num 0)) \<and>
   fst (dollar_try ex_env (Promise 0 [(''constructor'', Num 0)])
          (ex_world\<lparr>pstates := [Settled (Fulfil (Str ''ok''))]\<rparr>))
     = Throw (type_error ''constructor is not an object'') \<and>
   awaitable_shaped (Obj False [(''then'', Fn (User 3) [])]) \<and>
   fst (dollar_try ex_env (Obj False [(''then'', Fn (User 3) [])])
          (ex_world\<lparr>pstates := [Settled (Fulfil (Str ''ok''))]\<rparr>))
     = Throw (type_error ''cannot read properties of undefined'')"
  by code_simp

section \<open>The Results the adapter builds\<close>

text \<open>What \<open>$try\<close> returns when the wrapped function returned a thenable whose chain raises.\<close>

lemma try_chain_raises:
  assumes "typeof fn = ''function''" and "\<not> awaitable_shaped fn"
    and "call_function env fn Undefined [] w = (Return v, w1)" and "awaitable_shaped v"
    and "fst (then_catch env v w1) = Throw e"
  shows "fst (dollar_try env fn w) = Return (mk_error e)"
proof -
  obtain w2 where "then_catch env v w1 = (Throw e, w2)"
    using assms(5) by (cases "then_catch env v w1") auto
  then show ?thesis using assms(1-4) by (simp add: dollar_try_def)
qed

lemma try_raises:
  assumes "typeof fn = ''function''" and "\<not> awaitable_shaped fn"
    and "fst (call_function env fn Undefined [] w) = Throw e"
  shows "fst (dollar_try env fn w) = Return (mk_error e)"
proof -
  obtain w1 where "call_function env fn Undefined [] w = (Throw e, w1)"
    using assms(3) by (cases "call_function env fn Undefined [] w") auto
  then show ?thesis using assms(1,2) by (simp add: dollar_try_def)
qed

lemma try_returns:
  assumes "typeof fn = ''function''" and "\<not> awaitable_shaped fn"
    and "fst (call_function env fn Undefined [] w) = Return v" and "\<not> awaitable_shaped v"
  shows "fst (dollar_try env fn w) = Return (mk_result v)"
proof -
  obtain w1 where "call_function env fn Undefined [] w = (Return v, w1)"
    using assms(3) by (cases "call_function env fn Undefined [] w") auto
  then show ?thesis using assms(1,2,4) by (simp add: dollar_try_def)
qed

lemma exactly_one_results [simp]: "exactly_one (mk_result v)" "exactly_one (mk_error e)"
  by (simp_all add: exactly_one_def mk_result_def mk_error_def)

text \<open>
  C6 (amended). The Result type is a union of two object types: the first requires
  the value slot and forbids a value in the failure slot, the second requires the
  failure slot and forbids a value in the value slot. Every Result that \<open>$try\<close>
  builds has exactly one of the two slots present: the one it returns when the
  wrapped function (not awaitable-shaped itself) raises, when it returns a value that
  is not awaitable-shaped, and when it returns an awaitable-shaped value whose
  \<open>then\<close>/\<open>catch\<close> chain raises; and the one with which the promise \<open>$try\<close> derives
  from a plain promise is fulfilled, whenever that promise is settled. What the
  \<open>then\<close>/\<open>catch\<close> chain of any other awaitable-shaped value hands back is returned
  by \<open>$try\<close> as it is, and is outside this statement. (A slot is present when the
  object has that own property: the Result of a function returning \<open>undefined\<close> has
  its value slot present.)
\<close>

theorem results_exactly_one:
  "(\<exists>A B. ResultOrError T E = TUnion [A, B] \<and>
      requires_slot A ''result'' \<and> forbids_slot A ''error'' \<and>
      forbids_slot B ''result'' \<and> requires_slot B ''error'') \<and>
   (typeof fn = ''function'' \<and> \<not> awaitable_shaped fn \<and>
    fst (call_function env fn Undefined [] w) = Throw e \<longrightarrow>
      (\<exists>r. fst (dollar_try env fn w) = Return r \<and> exactly_one r)) \<and>
   (typeof fn' = ''function'' \<and> \<not> awaitable_shaped fn' \<and>
    fst (call_function env' fn' Undefined [] w') = Return v \<and> \<not> awaitable_shaped v \<longrightarrow>
      (\<exists>r. fst (dollar_try env' fn' w') = Return r \<and> exactly_one r)) \<and>
   (typeof fn'' = ''function'' \<and> \<not> awaitable_shaped fn'' \<and>
    call_function env'' fn'' Undefined [] w'' = (Return v', w1) \<and> awaitable_shaped v' \<and>
    fst (then_catch env'' v' w1) = Throw e' \<longrightarrow>
      (\<exists>r. fst (dollar_try env'' fn'' w'') = Return r \<and> exactly_one r)) \<and>
   (wf_world w2 \<and> p < length (pstates w2) \<and> awaits env2 arg w2 p \<and>
    pstate_of (run_events env2 evs (snd (dollar_try env2 arg w2))) (Suc (length (pstates w2)))
      = Settled s \<longrightarrow>
      (\<exists>r. s = Fulfil r \<and> exactly_one r))"
proof (intro conjI impI)
  show "\<exists>A B. ResultOrError T E = TUnion [A, B] \<and>
      requires_slot A ''result'' \<and> forbids_slot A ''error'' \<and>
      forbids_slot B ''result'' \<and> requires_slot B ''error''"
    by (simp add: ResultOrError_def ResultOrErrorResult_def ResultOrErrorError_def)
next
  assume "typeof fn = ''function'' \<and> \<not> awaitable_shaped fn \<and>
    fst (call_function env fn Undefined [] w) = Throw e"
  then have "fst (dollar_try env fn w) = Return (mk_error e)"
    by (intro try_raises) simp_all
  then show "\<exists>r. fst (dollar_try env fn w) = Return r \<and> exactly_one r" by simp
next
  assume "typeof fn' = ''function'' \<and> \<not> awaitable_shaped fn' \<and>
    fst (call_function env' fn' Undefined [] w') = Return v \<and> \<not> awaitable_shaped v"
  then have "fst (dollar_try env' fn' w') = Return (mk_result v)"
    by (intro try_returns) simp_all
  then show "\<exists>r. fst (dollar_try env' fn' w') = Return r \<and> exactly_one r" by simp
next
  assume "typeof fn'' = ''function'' \<and> \<not> awaitable_shaped fn'' \<and>
    call_function env'' fn'' Undefined [] w'' = (Return v', w1) \<and> awaitable_shaped v' \<and>
    fst (then_catch env'' v' w1) = Throw e'"
  then have "fst (dollar_try env'' fn'' w'') = Return (mk_error e')"
    by (intro try_chain_raises [where v = v' and ?w1.0 = w1]) simp_all
  then show "\<exists>r. fst (dollar_try env'' fn'' w'') = Return r \<and> exactly_one r" by simp
next
  assume h: "wf_world w2 \<and> p < length (pstates w2) \<and> awaits env2 arg w2 p \<and>
    pstate_of (run_events env2 evs (snd (dollar_try env2 arg w2))) (Suc (length (pstates w2)))
      = Settled s"
  then have "wf_world w2" "p < length (pstates w2)" "awaits env2 arg w2 p" by simp_all
  from try_chain_states [OF this, of evs] h
  show "\<exists>r. s = Fulfil r \<and> exactly_one r" by auto
qed

text \<open>
  The theorem at the Result type of numbers, at a function that raises 0, at a
  function returning 42, at a function returning a promise whose replaced \<open>then\<close>
  raises 0, and at the promise 0 fulfilled with \<open>'ok'\<close> once both microtasks have
  run.
\<close>

theorem results_exactly_one_witness:
  "(\<exists>A B. ResultOrError (TPrim ''number'') (TPrim ''string'') = TUnion [A, B] \<and>
      requires_slot A ''result'' \<and> forbids_slot A ''error'' \<and>
      forbids_slot B ''result'' \<and> requires_slot B ''error'') \<and>
   typeof (Fn (User 0) []) = ''function'' \<and> \<not> awaitable_shaped (Fn (User 0) []) \<and>
   fst (call_function ex_env (Fn (User 0) []) Undefined [] ex_world) = Throw (Num 0) \<and>
   (\<exists>r. fst (dollar_try ex_env (Fn (User 0) []) ex_world) = Return r \<and> exactly_one r) \<and>
   typeof (Fn (User 1) []) = ''function'' \<and> \<not> awaitable_shaped (Fn (User 1) []) \<and>
   fst (call_function ex_env (Fn (User 1) []) Undefined [] ex_world) = Return (Num 42) \<and>
   \<not> awaitable_shaped (Num 42) \<and>
   (\<exists>r. fst (dollar_try ex_env (Fn (User 1) []) ex_world) = Return r \<and> exactly_one r) \<and>
   typeof (Fn (User 3) []) = ''function'' \<and> \<not> awaitable_shaped (Fn (User 3) []) \<and>
   call_function ex_env2 (Fn (User 3) []) Undefined [] ex_world
     = (Return (Promise 0 [(''then'', Fn (User 4) [])]), ex_world\<lparr>calls := [(User 3, [])]\<rparr>) \<and>
   awaitable_shaped (Promise 0 [(''then'', Fn (User 4) [])]) \<and>
   fst (then_catch ex_env2 (Promise 0 [(''then'', Fn (User 4) [])])
          (ex_world\<lparr>calls := [(User 3, [])]\<rparr>)) = Throw (Num 0) \<and>
   (\<exists>r. fst (dollar_try ex_env2 (Fn (User 3) []) ex_world) = Return r \<and> exactly_one r) \<and>
   wf_world ex_world \<and> 0 < length (pstates ex_world) \<and>
   awaits ex_env (Promise 0 []) ex_world 0 \<and>
   pstate_of (run_events ex_env [Settle 0 (Fulfil (Str ''ok'')), RunJob, RunJob]
                (snd (dollar_try ex_env (Promise 0 []) ex_world))) 2
     = Settled (Fulfil (mk_result (Str ''ok''))) \<and>
   exactly_one (mk_result (Str ''ok''))"
proof -
  have t0: "typeof (Fn (User 0) []) = ''function''" and t1: "typeof (Fn (User 1) []) = ''function''"
    and t3: "typeof (Fn (User 3) []) = ''function''"
    by simp_all
  have a0: "\<not> awaitable_shaped (Fn (User 0) [])" and a1: "\<not> awaitable_shaped (Fn (User 1) [])"
    and a3: "\<not> awaitable_shaped (Fn (User 3) [])" and n: "\<not> awaitable_shaped (Num 42)"
    and av: "awaitable_shaped (Promise 0 [(''then'', Fn (User 4) [])])"
    by code_simp+
  have c0: "fst (call_function ex_env (Fn (User 0) []) Undefined [] ex_world) = Throw (Num 0)"
    and c1: "fst (call_function ex_env (Fn (User 1) []) Undefined [] ex_world) = Return (Num 42)"
    and c3: "call_function ex_env2 (Fn (User 3) []) Undefined [] ex_world
     = (Return (Promise 0 [(''then'', Fn (User 4) [])]), ex_world\<lparr>calls := [(User 3, [])]\<rparr>)"
    and tc: "fst (then_catch ex_env2 (Promise 0 [(''then'', Fn (User 4) [])])
          (ex_world\<lparr>calls := [(User 3, [])]\<rparr>)) = Throw (Num 0)"
    by code_simp+
  have p: "0 < length (pstates ex_world)" by (simp add: ex_world_def)
  have l: "Suc (length (pstates ex_world)) = 2" by (simp add: ex_world_def)
  have aw: "awaits ex_env (Promise 0 []) ex_world 0" by (simp add: awaits_def)
  have s: "pstate_of (run_events ex_env [Settle 0 (Fulfil (Str ''ok'')), RunJob, RunJob]
                (snd (dollar_try ex_env (Promise 0 []) ex_world))) 2
     = Settled (Fulfil (mk_result (Str ''ok'')))"
    by code_simp
  note T = results_exactly_one [where T = "TPrim ''number''" and E = "TPrim ''string''"
      and fn = "Fn (User 0) []" and env = ex_env and w = ex_world and e = "Num 0"
      and fn' = "Fn (User 1) []" and env' = ex_env and w' = ex_world and v = "Num 42"
      and fn'' = "Fn (User 3) []" and env'' = ex_env2 and w'' = ex_world
      and v' = "Promise 0 [(''then'', Fn (User 4) [])]"
      and ?w1.0 = "ex_world\<lparr>calls := [(User 3, [])]\<rparr>" and e' = "Num 0"
      and ?w2.0 = ex_world and p = 0 and ?env2.0 = ex_env and arg = "Promise 0 []"
      and evs = "[Settle 0 (Fulfil (Str ''ok'')), RunJob, RunJob]"
      and s = "Fulfil (mk_result (Str ''ok''))", unfolded l]
  note T1 = T [THEN conjunct1]
  note T2 = T [THEN conjunct2, THEN conjunct1, rule_format, OF conjI, OF t0 conjI, OF a0 c0]
  note T3 = T [THEN conjunct2, THEN conjunct2, THEN conjunct1, rule_format,
      OF conjI, OF t1 conjI, OF a1 conjI, OF c1 n]
  note T4 = T [THEN conjunct2, THEN conjunct2, THEN conjunct2, THEN conjunct1, rule_format,
      OF conjI, OF t3 conjI, OF a3 conjI, OF c3 conjI, OF av tc]
  have "\<exists>r. Fulfil (mk_result (Str ''ok'')) = Fulfil r \<and> exactly_one r"
    using T [THEN conjunct2, THEN conjunct2, THEN conjunct2, THEN conjunct2, rule_format,
      OF conjI, OF ex_world_wf conjI, OF p conjI, OF aw s] .
  then have r5: "exactly_one (mk_result (Str ''ok''))" by simp
  show ?thesis
    by (intro conjI) (rule T1 T2 T3 T4 t0 t1 t3 a0 a1 a3 n av c0 c1 c3 tc ex_world_wf p aw s r5)+
qed

text \<open>
  C6 as stated fails for what \<open>$try\<close> hands back from a thenable that is not a plain
  promise. The object below has a \<open>then\<close> member returning an object whose \<open>catch\<close>
  member returns \<open>{ result: 1, error: 2 }\<close>: \<open>$try\<close> returns that value, with both
  slots present, when the object is passed directly and when a wrapped function
  (function 7) returns it. With a \<open>catch\<close> member returning the number 7, \<open>$try\<close>
  returns 7, which has neither slot. And with a \<open>then\<close> member returning the promise
  0, the promise \<open>$try\<close> returns is fulfilled with the bare value \<open>'v'\<close> once the
  promise 0 is.
\<close>

theorem results_exactly_one_counterexample:
  "awaitable_shaped (Obj False [(''then'', Fn (User 1) [])]) \<and>
   fst (dollar_try ex_env2 (Obj False [(''then'', Fn (User 1) [])]) ex_world)
     = Return (Obj False [(''result'', Num 1), (''error'', Num 2)]) \<and>
   typeof (Fn (User 7) []) = ''function'' \<and> \<not> awaitable_shaped (Fn (User 7) []) \<and>
   fst (dollar_try ex_env2 (Fn (User 7) []) ex_world)
     = Return (Obj False [(''result'', Num 1), (''error'', Num 2)]) \<and>
   has_own (Obj False [(''result'', Num 1), (''error'', Num 2)]) ''result'' \<and>
   has_own (Obj False [(''result'', Num 1), (''error'', Num 2)]) ''error'' \<and>
   \<not> exactly_one (Obj False [(''result'', Num 1), (''error'', Num 2)]) \<and>
   fst (dollar_try ex_env2 (Obj False [(''then'', Fn (User 5) [])]) ex_world) = Return (Num 7) \<and>
   \<not> has_own (Num 7) ''result'' \<and> \<not> has_own (Num 7) ''error'' \<and> \<not> exactly_one (Num 7) \<and>
   fst (dollar_try ex_env (Obj False [(''then'', Fn (User 2) [])]) ex_world)
     = Return (Promise 1 []) \<and>
   pstate_of (run_events ex_env [Settle 0 (Fulfil (Str ''v'')), RunJob]
                (snd (dollar_try ex_env (Obj False [(''then'', Fn (User 2) [])]) ex_world))) 1
     = Settled (Fulfil (Str ''v'')) \<and>
   \<not> exactly_one (Str ''v'')"
  by code_simp

text \<open>
  C5 (amended). On success the failure slot of the Result is falsy and the value slot
  is present. On failure the value slot is absent, and the failure slot is truthy
  exactly when the captured raised value or rejection reason is truthy. So a truthy
  failure slot always means failure; a falsy failure slot means success unless a falsy
  value was raised or was the rejection reason. This holds for the Results \<open>$try\<close>
  returns synchronously and for those delivered through the promise it returns. It
  holds as well for the failure Result \<open>$try\<close> returns when the \<open>then\<close>/\<open>catch\<close>
  chain on an awaitable-shaped value returned by the wrapped function raises: what was
  raised there is the captured value.
\<close>

theorem try_narrowing:
  "(typeof fn = ''function'' \<and> \<not> awaitable_shaped fn \<and>
    fst (call_function env fn Undefined [] w) = Throw e \<longrightarrow>
      (\<exists>r. fst (dollar_try env fn w) = Return r \<and>
           truthy (get_member r ''error'') = truthy e \<and> \<not> has_own r ''result'')) \<and>
   (typeof fn' = ''function'' \<and> \<not> awaitable_shaped fn' \<and>
    fst (call_function env fn' Undefined [] w1) = Return v \<and> \<not> awaitable_shaped v \<longrightarrow>
      (\<exists>r. fst (dollar_try env fn' w1) = Return r \<and>
           \<not> truthy (get_member r ''error'') \<and> has_own r ''result'')) \<and>
   (wf_world w2 \<and> p < length (pstates w2) \<and> awaits env arg w2 p \<and>
    pstate_of (run_events env evs (snd (dollar_try env arg w2))) (Suc (length (pstates w2)))
      = Settled s \<longrightarrow>
      (\<exists>r. s = Fulfil r \<and>
         ((\<exists>x. pstate_of (run_events env evs (snd (dollar_try env arg w2))) p = Settled (Fulfil x) \<and>
               \<not> truthy (get_member r ''error'') \<and> has_own r ''result'') \<or>
          (\<exists>x. pstate_of (run_events env evs (snd (dollar_try env arg w2))) p = Settled (Reject x) \<and>
               truthy (get_member r ''error'') = truthy x \<and> \<not> has_own r ''result'')))) \<and>
   (typeof fn'' = ''function'' \<and> \<not> awaitable_shaped fn'' \<and>
    call_function env' fn'' Undefined [] w3 = (Return v', w4) \<and> awaitable_shaped v' \<and>
    fst (then_catch env' v' w4) = Throw e' \<longrightarrow>
      (\<exists>r. fst (dollar_try env' fn'' w3) = Return r \<and>
           truthy (get_member r ''error'') = truthy e' \<and> \<not> has_own r ''result''))"
proof (intro conjI impI)
  assume h: "typeof fn = ''function'' \<and> \<not> awaitable_shaped fn \<and>
    fst (call_function env fn Undefined [] w) = Throw e"
  then obtain w' where "call_function env fn Undefined [] w = (Throw e, w')"
    by (cases "call_function env fn Undefined [] w") auto
  then have "fst (dollar_try env fn w) = Return (mk_error e)"
    using h by (simp add: dollar_try_def)
  then show "\<exists>r. fst (dollar_try env fn w) = Return r \<and>
           truthy (get_member r ''error'') = truthy e \<and> \<not> has_own r ''result''"
    by (simp add: mk_error_def)
next
  assume h: "typeof fn' = ''function'' \<and> \<not> awaitable_shaped fn' \<and>
    fst (call_function env fn' Undefined [] w1) = Return v \<and> \<not> awaitable_shaped v"
  then obtain w' where "call_function env fn' Undefined [] w1 = (Return v, w')"
    by (cases "call_function env fn' Undefined [] w1") auto
  then have "fst (dollar_try env fn' w1) = Return (mk_result v)"
    using h by (simp add: dollar_try_def)
  then show "\<exists>r. fst (dollar_try env fn' w1) = Return r \<and>
           \<not> truthy (get_member r ''error'') \<and> has_own r ''result''"
    by (simp add: mk_result_def)
next
  assume h: "wf_world w2 \<and> p < length (pstates w2) \<and> awaits env arg w2 p \<and>
    pstate_of (run_events env evs (snd (dollar_try env arg w2))) (Suc (length (pstates w2)))
      = Settled s"
  then have "wf_world w2" "p < length (pstates w2)" "awaits env arg w2 p" by simp_all
  from try_chain_states [OF this, of evs] h
  show "\<exists>r. s = Fulfil r \<and>
         ((\<exists>x. pstate_of (run_events env evs (snd (dollar_try env arg w2))) p = Settled (Fulfil x) \<and>
               \<not> truthy (get_member r ''error'') \<and> has_own r ''result'') \<or>
          (\<exists>x. pstate_of (run_events env evs (snd (dollar_try env arg w2))) p = Settled (Reject x) \<and>
               truthy (get_member r ''error'') = truthy x \<and> \<not> has_own r ''result''))"
    by (auto simp: mk_result_def mk_error_def)
next
  assume "typeof fn'' = ''function'' \<and> \<not> awaitable_shaped fn'' \<and>
    call_function env' fn'' Undefined [] w3 = (Return v', w4) \<and> awaitable_shaped v' \<and>
    fst (then_catch env' v' w4) = Throw e'"
  then have "fst (dollar_try env' fn'' w3) = Return (mk_error e')"
    by (intro try_chain_raises [where v = v' and ?w1.0 = w4]) simp_all
  then show "\<exists>r. fst (dollar_try env' fn'' w3) = Return r \<and>
           truthy (get_member r ''error'') = truthy e' \<and> \<not> has_own r ''result''"
    by (simp add: mk_error_def)
qed

text \<open>
  The theorem at a function raising 0, a function returning 42, the promise 0
  rejected with a non-empty string, and a function returning a promise whose replaced
  \<open>then\<close> raises 0.
\<close>

theorem try_narrowing_witness:
  "typeof (Fn (User 0) []) = ''function'' \<and> \<not> awaitable_shaped (Fn (User 0) []) \<and>
   fst (call_function ex_env (Fn (User 0) []) Undefined [] ex_world) = Throw (Num 0) \<and>
   typeof (Fn (User 1) []) = ''function'' \<and> \<not> awaitable_shaped (Fn (User 1) []) \<and>
   fst (call_function ex_env (Fn (User 1) []) Undefined [] ex_world) = Return (Num 42) \<and>
   \<not> awaitable_shaped (Num 42) \<and>
   (\<exists>r. fst (dollar_try ex_env (Fn (User 1) []) ex_world) = Return r \<and>
        \<not> truthy (get_member r ''error'') \<and> has_own r ''result'') \<and>
   wf_world ex_world \<and> 0 < length (pstates ex_world) \<and>
   awaits ex_env (Promise 0 []) ex_world 0 \<and>
   pstate_of (run_events ex_env [Settle 0 (Reject (Str ''net down'')), RunJob, RunJob]
                (snd (dollar_try ex_env (Promise 0 []) ex_world))) 2
     = Settled (Fulfil (mk_error (Str ''net down''))) \<and>
   truthy (get_member (mk_error (Str ''net down'')) ''error'') \<and>
   \<not> has_own (mk_error (Str ''net down'')) ''result'' \<and>
   typeof (Fn (User 3) []) = ''function'' \<and> \<not> awaitable_shaped (Fn (User 3) []) \<and>
   call_function ex_env2 (Fn (User 3) []) Undefined [] ex_world
     = (Return (Promise 0 [(''then'', Fn (User 4) [])]), ex_world\<lparr>calls := [(User 3, [])]\<rparr>) \<and>
   awaitable_shaped (Promise 0 [(''then'', Fn (User 4) [])]) \<and>
   fst (then_catch ex_env2 (Promise 0 [(''then'', Fn (User 4) [])])
          (ex_world\<lparr>calls := [(User 3, [])]\<rparr>)) = Throw (Num 0) \<and>
   (\<exists>r. fst (dollar_try ex_env2 (Fn (User 3) []) ex_world) = Return r \<and>
        \<not> truthy (get_member r ''error'') \<and> \<not> has_own r ''result'')"
proof -
  have t3: "typeof (Fn (User 3) []) = ''function''" by simp
  have a3: "\<not> awaitable_shaped (Fn (User 3) [])"
    and av: "awaitable_shaped (Promise 0 [(''then'', Fn (User 4) [])])"
    by code_simp+
  have c3: "call_function ex_env2 (Fn (User 3) []) Undefined [] ex_world
     = (Return (Promise 0 [(''then'', Fn (User 4) [])]), ex_world\<lparr>calls := [(User 3, [])]\<rparr>)"
    and tc: "fst (then_catch ex_env2 (Promise 0 [(''then'', Fn (User 4) [])])
          (ex_world\<lparr>calls := [(User 3, [])]\<rparr>)) = Throw (Num 0)"
    by code_simp+
  have t0: "typeof (Fn (User 0) []) = ''function''" and t1: "typeof (Fn (User 1) []) = ''function''"
    by simp_all
  have a0: "\<not> awaitable_shaped (Fn (User 0) [])" and a1: "\<not> awaitable_shaped (Fn (User 1) [])"
    and n: "\<not> awaitable_shaped (Num 42)"
    by code_simp+
  have c0: "fst (call_function ex_env (Fn (User 0) []) Undefined [] ex_world) = Throw (Num 0)"
    and c1: "fst (call_function ex_env (Fn (User 1) []) Undefined [] ex_world) = Return (Num 42)"
    by code_simp+
  have p: "0 < length (pstates ex_world)" by (simp add: ex_world_def)
  have l: "Suc (length (pstates ex_world)) = 2" by (simp add: ex_world_def)
  have aw: "awaits ex_env (Promise 0 []) ex_world 0" by (simp add: awaits_def)
  have s: "pstate_of (run_events ex_env [Settle 0 (Reject (Str ''net down'')), RunJob, RunJob]
                (snd (dollar_try ex_env (Promise 0 []) ex_world))) 2
     = Settled (Fulfil (mk_error (Str ''net down'')))"
    by code_simp
  note T = try_narrowing [where fn = "Fn (User 0) []" and env = ex_env and w = ex_world
      and e = "Num 0" and fn' = "Fn (User 1) []" and ?w1.0 = ex_world and v = "Num 42"
      and ?w2.0 = ex_world and p = 0 and arg = "Promise 0 []"
      and evs = "[Settle 0 (Reject (Str ''net down'')), RunJob, RunJob]"
      and s = "Fulfil (mk_error (Str ''net down''))"
      and fn'' = "Fn (User 3) []" and env' = ex_env2 and ?w3.0 = ex_world
      and v' = "Promise 0 [(''then'', Fn (User 4) [])]"
      and ?w4.0 = "ex_world\<lparr>calls := [(User 3, [])]\<rparr>" and e' = "Num 0", unfolded l]
  have "\<exists>r. fst (dollar_try ex_env2 (Fn (User 3) []) ex_world) = Return r \<and>
        truthy (get_member r ''error'') = truthy (Num 0) \<and> \<not> has_own r ''result''"
    using T [THEN conjunct2, THEN conjunct2, THEN conjunct2, rule_format,
      OF conjI, OF t3 conjI, OF a3 conjI, OF c3 conjI, OF av tc] .
  then have r4: "\<exists>r. fst (dollar_try ex_env2 (Fn (User 3) []) ex_world) = Return r \<and>
        \<not> truthy (get_member r ''error'') \<and> \<not> has_own r ''result''"
    by simp
  have r1: "\<exists>r. fst (dollar_try ex_env (Fn (User 1) []) ex_world) = Return r \<and>
        \<not> truthy (get_member r ''error'') \<and> has_own r ''result''"
    using T [THEN conjunct2, THEN conjunct1] t1 a1 c1 n by blast
  have r2: "truthy (get_member (mk_error (Str ''net down'')) ''error'')"
    and r3: "\<not> has_own (mk_error (Str ''net down'')) ''result''"
    by code_simp+
  show ?thesis
    by (intro conjI) (rule t0 t1 a0 a1 n c0 c1 r1 ex_world_wf p aw s r2 r3 t3 a3 c3 av tc r4)+
qed

text \<open>
  C5 as stated fails when the raised value is falsy: for a function that raises the
  number 0, the failure slot of the Result is falsy and yet the value slot is absent.
\<close>

theorem try_narrowing_counterexample:
  "fst (dollar_try ex_env (Fn (User 0) []) ex_world) = Return (mk_error (Num 0)) \<and>
   \<not> truthy (get_member (mk_error (Num 0)) ''error'') \<and>
   \<not> has_own (mk_error (Num 0)) ''result''"
  by code_simp

text \<open>
  C8 (amended). The failure slot of a failure Result built by \<open>$try\<close> is the raised
  value or the rejection reason itself, unchanged; so it carries a message exactly when
  that value does. The raised value is what the wrapped function raised or, when the
  function returned an awaitable-shaped value, what the \<open>then\<close>/\<open>catch\<close> chain on
  that value raised.
\<close>

theorem try_failure_payload:
  "(typeof fn = ''function'' \<and> \<not> awaitable_shaped fn \<and>
    fst (call_function env fn Undefined [] w) = Throw e \<longrightarrow>
      (\<exists>r. fst (dollar_try env fn w) = Return r \<and> get_member r ''error'' = e \<and>
           has_message (get_member r ''error'') = has_message e)) \<and>
   (wf_world w2 \<and> p < length (pstates w2) \<and> awaits env arg w2 p \<and>
    pstate_of (run_events env evs (snd (dollar_try env arg w2))) p = Settled (Reject x) \<and>
    pstate_of (run_events env evs (snd (dollar_try env arg w2))) (Suc (length (pstates w2)))
      = Settled s \<longrightarrow>
      (\<exists>r. s = Fulfil r \<and> get_member r ''error'' = x \<and>
           has_message (get_member r ''error'') = has_message x)) \<and>
   (typeof fn'' = ''function'' \<and> \<not> awaitable_shaped fn'' \<and>
    call_function env' fn'' Undefined [] w3 = (Return v', w4) \<and> awaitable_shaped v' \<and>
    fst (then_catch env' v' w4) = Throw e' \<longrightarrow>
      (\<exists>r. fst (dollar_try env' fn'' w3) = Return r \<and> get_member r ''error'' = e' \<and>
           has_message (get_member r ''error'') = has_message e'))"
proof (intro conjI impI)
  assume h: "typeof fn = ''function'' \<and> \<not> awaitable_shaped fn \<and>
    fst (call_function env fn Undefined [] w) = Throw e"
  then obtain w' where "call_function env fn Undefined [] w = (Throw e, w')"
    by (cases "call_function env fn Undefined [] w") auto
  then have "fst (dollar_try env fn w) = Return (mk_error e)"
    using h by (simp add: dollar_try_def)
  then show "\<exists>r. fst (dollar_try env fn w) = Return r \<and> get_member r ''error'' = e \<and>
           has_message (get_member r ''error'') = has_message e"
    by (simp add: mk_error_def)
next
  assume h: "wf_world w2 \<and> p < length (pstates w2) \<and> awaits env arg w2 p \<and>
    pstate_of (run_events env evs (snd (dollar_try env arg w2))) p = Settled (Reject x) \<and>
    pstate_of (run_events env evs (snd (dollar_try env arg w2))) (Suc (length (pstates w2)))
      = Settled s"
  then have "wf_world w2" "p < length (pstates w2)" "awaits env arg w2 p" by simp_all
  from try_chain_states [OF this, of evs] h
  show "\<exists>r. s = Fulfil r \<and> get_member r ''error'' = x \<and>
           has_message (get_member r ''error'') = has_message x"
    by (auto simp: mk_error_def)
next
  assume "typeof fn'' = ''function'' \<and> \<not> awaitable_shaped fn'' \<and>
    call_function env' fn'' Undefined [] w3 = (Return v', w4) \<and> awaitable_shaped v' \<and>
    fst (then_catch env' v' w4) = Throw e'"
  then have "fst (dollar_try env' fn'' w3) = Return (mk_error e')"
    by (intro try_chain_raises [where v = v' and ?w1.0 = w4]) simp_all
  then show "\<exists>r. fst (dollar_try env' fn'' w3) = Return r \<and> get_member r ''error'' = e' \<and>
           has_message (get_member r ''error'') = has_message e'"
    by (simp add: mk_error_def)
qed

text \<open>
  The theorem at a function raising 0, at the promise 0 rejected with an error
  object, whose message is then found in the failure slot, and at a function
  returning an object whose \<open>then\<close> member returns an object without \<open>catch\<close>: the
  TypeError of that call is the failure slot.
\<close>

theorem try_failure_payload_witness:
  "typeof (Fn (User 0) []) = ''function'' \<and> \<not> awaitable_shaped (Fn (User 0) []) \<and>
   fst (call_function ex_env (Fn (User 0) []) Undefined [] ex_world) = Throw (Num 0) \<and>
   (\<exists>r. fst (dollar_try ex_env (Fn (User 0) []) ex_world) = Return r \<and>
        get_member r ''error'' = Num 0) \<and>
   wf_world ex_world \<and> 0 < length (pstates ex_world) \<and>
   awaits ex_env (Promise 0 []) ex_world 0 \<and>
   pstate_of (run_events ex_env [Settle 0 (Reject (type_error ''net down'')), RunJob, RunJob]
                (snd (dollar_try ex_env (Promise 0 []) ex_world))) 0
     = Settled (Reject (type_error ''net down'')) \<and>
   pstate_of (run_events ex_env [Settle 0 (Reject (type_error ''net down'')), RunJob, RunJob]
                (snd (dollar_try ex_env (Promise 0 []) ex_world))) 2
     = Settled (Fulfil (mk_error (type_error ''net down''))) \<and>
   has_message (get_member (mk_error (type_error ''net down'')) ''error'') \<and>
   typeof (Fn (User 0) []) = ''function'' \<and> \<not> awaitable_shaped (Fn (User 0) []) \<and>
   call_function ex_env2 (Fn (User 0) []) Undefined [] ex_world
     = (Return (Obj False [(''then'', Fn (User 0) [])]), ex_world\<lparr>calls := [(User 0, [])]\<rparr>) \<and>
   awaitable_shaped (Obj False [(''then'', Fn (User 0) [])]) \<and>
   fst (then_catch ex_env2 (Obj False [(''then'', Fn (User 0) [])])
          (ex_world\<lparr>calls := [(User 0, [])]\<rparr>)) = Throw (type_error ''not a function'') \<and>
   (\<exists>r. fst (dollar_try ex_env2 (Fn (User 0) []) ex_world) = Return r \<and>
        get_member r ''error'' = type_error ''not a function'' \<and>
        has_message (get_member r ''error''))"
proof -
  have av: "awaitable_shaped (Obj False [(''then'', Fn (User 0) [])])" by code_simp
  have c3: "call_function ex_env2 (Fn (User 0) []) Undefined [] ex_world
     = (Return (Obj False [(''then'', Fn (User 0) [])]), ex_world\<lparr>calls := [(User 0, [])]\<rparr>)"
    and tc: "fst (then_catch ex_env2 (Obj False [(''then'', Fn (User 0) [])])
          (ex_world\<lparr>calls := [(User 0, [])]\<rparr>)) = Throw (type_error ''not a function'')"
    by code_simp+
  have hm: "has_message (type_error ''not a function'')" by code_simp
  have t0: "typeof (Fn (User 0) []) = ''function''" by simp
  have a0: "\<not> awaitable_shaped (Fn (User 0) [])" by code_simp
  have c0: "fst (call_function ex_env (Fn (User 0) []) Undefined [] ex_world) = Throw (Num 0)"
    by code_simp
  have p: "0 < length (pstates ex_world)" by (simp add: ex_world_def)
  have l: "Suc (length (pstates ex_world)) = 2" by (simp add: ex_world_def)
  have aw: "awaits ex_env (Promise 0 []) ex_world 0" by (simp add: awaits_def)
  have s0: "pstate_of (run_events ex_env [Settle 0 (Reject (type_error ''net down'')), RunJob, RunJob]
                (snd (dollar_try ex_env (Promise 0 []) ex_world))) 0
     = Settled (Reject (type_error ''net down''))"
    by code_simp
  have s: "pstate_of (run_events ex_env [Settle 0 (Reject (type_error ''net down'')), RunJob, RunJob]
                (snd (dollar_try ex_env (Promise 0 []) ex_world))) 2
     = Settled (Fulfil (mk_error (type_error ''net down'')))"
    by code_simp
  note T = try_failure_payload [where fn = "Fn (User 0) []" and env = ex_env and w = ex_world
      and e = "Num 0" and ?w2.0 = ex_world and p = 0 and arg = "Promise 0 []"
      and evs = "[Settle 0 (Reject (type_error ''net down'')), RunJob, RunJob]"
      and x = "type_error ''net down''"
      and s = "Fulfil (mk_error (type_error ''net down''))"
      and fn'' = "Fn (User 0) []" and env' = ex_env2 and ?w3.0 = ex_world
      and v' = "Obj False [(''then'', Fn (User 0) [])]"
      and ?w4.0 = "ex_world\<lparr>calls := [(User 0, [])]\<rparr>"
      and e' = "type_error ''not a function''", unfolded l]
  have "\<exists>r. fst (dollar_try ex_env2 (Fn (User 0) []) ex_world) = Return r \<and>
        get_member r ''error'' = type_error ''not a function'' \<and>
        has_message (get_member r ''error'') = has_message (type_error ''not a function'')"
    using T [THEN conjunct2, THEN conjunct2, rule_format,
      OF conjI, OF t0 conjI, OF a0 conjI, OF c3 conjI, OF av tc] .
  then have r4: "\<exists>r. fst (dollar_try ex_env2 (Fn (User 0) []) ex_world) = Return r \<and>
        get_member r ''error'' = type_error ''not a function'' \<and>
        has_message (get_member r ''error'')"
    using hm by simp
  have r1: "\<exists>r. fst (dollar_try ex_env (Fn (User 0) []) ex_world) = Return r \<and>
        get_member r ''error'' = Num 0"
    using T [THEN conjunct1] t0 a0 c0 by blast
  have r2: "has_message (get_member (mk_error (type_error ''net down'')) ''error'')"
    by code_simp
  show ?thesis
    by (intro conjI) (rule t0 a0 c0 r1 ex_world_wf p aw s0 s r2 c3 av tc r4)+
qed

text \<open>
  C8 as stated fails when the raised value is not an Error object: for a function that
  raises the number 0 the failure slot is that number, which has no message.
\<close>

theorem try_failure_payload_counterexample:
  "fst (dollar_try ex_env (Fn (User 0) []) ex_world) = Return (mk_error (Num 0)) \<and>
   get_member (mk_error (Num 0)) ''error'' = Num 0 \<and>
   \<not> has_message (get_member (mk_error (Num 0)) ''error'')"
  by code_simp

section \<open>Read-only fields\<close>

lemma deep_readonly_all:
  "all_readonly (DeepReadonly t)" "prop_readonly (deep_prop q)"
  by (induction t and q) (simp_all add: list_all_iff)

text \<open>
  C4 (amended). In the Result type every property, of the Result itself and of every
  object or array type reachable from either slot, is declared \<open>readonly\<close>; function
  types are left as they are. That is a compile-time declaration only: the objects
  \<open>$try\<close> builds are not frozen, and assigning to a property of one at runtime
  succeeds.
\<close>

theorem result_type_readonly:
  "all_readonly (ResultOrError T E) \<and>
   set_member (mk_result v) n x = Return (Obj False (put_prop n x [(''result'', v)])) \<and>
   set_member (mk_error e) n x = Return (Obj False (put_prop n x [(''error'', e)]))"
  by (simp add: ResultOrError_def deep_readonly_all mk_result_def mk_error_def)

text \<open>
  The theorem at a success type with a nested array, and at the Result of scenario 1.
\<close>

theorem result_type_readonly_witness:
  "all_readonly (ResultOrError (TObject [Prop ''items'' False False (TArray False (TPrim ''number''))])
                   (TPrim ''string'')) \<and>
   set_member (mk_result (Num 42)) ''result'' (Num 5) = Return (Obj False [(''result'', Num 5)])"
  using result_type_readonly [of "TObject [Prop ''items'' False False (TArray False (TPrim ''number''))]"
      "TPrim ''string''" "Num 42" "''result''" "Num 5"]
  by simp

text \<open>
  C4 as stated fails at runtime: the Result \<open>$try\<close> returns for a function returning
  42 takes the assignment \<open>r.result = 5\<close>, and is a different object afterwards.
\<close>

theorem result_type_readonly_counterexample:
  "fst (dollar_try ex_env (Fn (User 1) []) ex_world) = Return (mk_result (Num 42)) \<and>
   set_member (mk_result (Num 42)) ''result'' (Num 5) = Return (mk_result (Num 5)) \<and>
   mk_result (Num 5) \<noteq> mk_result (Num 42)"
  by code_simp

end
